theory Spec2Isabelle
  imports Complex_Main
begin

section \<open>Strings and numbers of the host language\<close>

text \<open>
  A string of the program is a sequence of UTF-16 code units; a code unit is modelled by
  its number. \<open>js\<close> turns a literal of the theory into such a string.
\<close>

type_synonym code_unit = nat
type_synonym jsstring = "code_unit list"

definition js :: "string \<Rightarrow> jsstring" where
  "js s = map of_char s"

text \<open>
  The characters that \<^verbatim>\<open>\s\<close> matches and that \<^verbatim>\<open>trim()\<close> removes: the white
  space and line terminator code points of the language (TAB, LF, VT, FF, CR, SP, NBSP,
  U+1680, U+2000 to U+200A, U+2028, U+2029, U+202F, U+205F, U+3000, U+FEFF).
\<close>

definition is_space :: "code_unit \<Rightarrow> bool" where
  "is_space c \<longleftrightarrow>
     c = 9 \<or> c = 10 \<or> c = 11 \<or> c = 12 \<or> c = 13 \<or> c = 32 \<or> c = 160 \<or> c = 5760 \<or>
     (8192 \<le> c \<and> c \<le> 8202) \<or> c = 8232 \<or> c = 8233 \<or> c = 8239 \<or> c = 8287 \<or>
     c = 12288 \<or> c = 65279"

text \<open>\<^verbatim>\<open>\d\<close> without the unicode flag: the ten ASCII digits.\<close>

definition is_digit :: "code_unit \<Rightarrow> bool" where
  "is_digit c \<longleftrightarrow> 48 \<le> c \<and> c \<le> 57"

definition trim :: "jsstring \<Rightarrow> jsstring" where
  "trim s = rev (dropWhile is_space (rev (dropWhile is_space s)))"

text \<open>
  A number of the program is a binary64 value: not-a-number, an infinity (the flag says
  negative) or a finite value, kept as the rational it denotes. The two zeros are not
  told apart.
\<close>

datatype number = NaN | Fin rat | Inf bool

fun num_abs :: "number \<Rightarrow> number" where
  "num_abs NaN = NaN"
| "num_abs (Fin x) = Fin \<bar>x\<bar>"
| "num_abs (Inf _) = Inf False"

text \<open>The operator \<^verbatim>\<open>>\<close> on numbers; every comparison with not-a-number is false.\<close>

fun num_gt :: "number \<Rightarrow> number \<Rightarrow> bool" where
  "num_gt (Fin x) (Fin y) = (y < x)"
| "num_gt (Inf neg) (Fin y) = (\<not> neg)"
| "num_gt (Fin x) (Inf neg) = neg"
| "num_gt (Inf a) (Inf b) = (\<not> a \<and> b)"
| "num_gt _ _ = False"

subsection \<open>Rounding a decimal to binary64\<close>

text \<open>
  \<open>bitlen n\<close> is the number of binary digits of \<open>n\<close>; \<open>ilog2 p q\<close> is the integer
  part of the binary logarithm of the positive fraction \<open>p / q\<close>.
\<close>

fun bitlen :: "nat \<Rightarrow> nat" where
  "bitlen n = (if n = 0 then 0 else Suc (bitlen (n div 2)))"

declare bitlen.simps [simp del]

definition pow2 :: "int \<Rightarrow> rat" where
  "pow2 e = (if 0 \<le> e then 2 ^ nat e else 1 / 2 ^ nat (- e))"

definition ilog2 :: "nat \<Rightarrow> nat \<Rightarrow> int" where
  "ilog2 p q =
     (let k = int (bitlen p) - int (bitlen q)
      in if q * 2 ^ nat k \<le> p * 2 ^ nat (- k) then k else k - 1)"

text \<open>Division of naturals rounded to the nearest integer, a tie going to the even one.\<close>

definition round_ties_even :: "nat \<Rightarrow> nat \<Rightarrow> nat" where
  "round_ties_even n d =
     (let f = n div d; r = n mod d
      in if 2 * r < d then f
         else if d < 2 * r then f + 1
         else if even f then f else f + 1)"

text \<open>
  \<open>to_double neg p q\<close> is the binary64 value nearest to the decimal \<open>p / q\<close> (with
  \<open>0 < q\<close>), negated when \<open>neg\<close>: 53 significant bits, exponents from -1022 (below it
  the spacing of the subnormal numbers) to 1023, ties to even, overflow to infinity.
\<close>

definition to_double :: "bool \<Rightarrow> nat \<Rightarrow> nat \<Rightarrow> number" where
  "to_double neg p q =
     (if p = 0 then Fin 0
      else
        let e = max (ilog2 p q) (- 1022);
            m = round_ties_even (p * 2 ^ nat (52 - e)) (q * 2 ^ nat (e - 52));
            v = of_nat m * pow2 (e - 52)
        in if pow2 1024 \<le> v then Inf neg else Fin (if neg then - v else v))"

subsection \<open>parseFloat\<close>

definition digits_val :: "jsstring \<Rightarrow> nat" where
  "digits_val ds = foldl (\<lambda>a c. 10 * a + (c - 48)) 0 ds"

text \<open>
  \<^verbatim>\<open>parseFloat\<close> on the decimal literals without exponent part: leading white space is
  skipped, then the longest prefix of the form sign, digits, point, digits is read and
  rounded to binary64; when no digit is found the result is not-a-number. The strings
  the program passes are the two captures of its coordinate pattern, which hold nothing
  but a minus sign, digits and a point. An absent capture (\<^verbatim>\<open>undefined\<close>) is read as
  not-a-number.
\<close>

definition parseFloat :: "jsstring \<Rightarrow> number" where
  "parseFloat s =
     (let t = dropWhile is_space s;
          neg = (t \<noteq> [] \<and> hd t = 45);
          u = (if t \<noteq> [] \<and> (hd t = 45 \<or> hd t = 43) then tl t else t);
          ip = takeWhile is_digit u;
          r = dropWhile is_digit u;
          fp = (case r of [] \<Rightarrow> [] | c # r' \<Rightarrow> if c = 46 then takeWhile is_digit r' else [])
      in if ip = [] \<and> fp = [] then NaN
         else to_double neg (digits_val (ip @ fp)) (10 ^ length fp))"

definition parseFloat_capture :: "jsstring option \<Rightarrow> number" where
  "parseFloat_capture c = (case c of None \<Rightarrow> NaN | Some s \<Rightarrow> parseFloat s)"

section \<open>Regular expressions with backtracking\<close>

text \<open>
  The fragment of the pattern language the program uses: a character class, the anchors
  \<^verbatim>\<open>^\<close> and \<^verbatim>\<open>$\<close> (no multiline flag), concatenation, the greedy quantifier
  \<^verbatim>\<open>{min,max}\<close> (\<^verbatim>\<open>?\<close> is \<open>{0,1}\<close>, \<^verbatim>\<open>*\<close> is \<open>{0,}\<close>, \<^verbatim>\<open>+\<close> is \<open>{1,}\<close>) and the
  capturing group with its number; \<^verbatim>\<open>(?: )\<close> only groups and needs no constructor.
\<close>

datatype rx =
    Cls "code_unit \<Rightarrow> bool"
  | Bol
  | Eol
  | Seq rx rx
  | Quant nat "nat option" rx
  | Grp nat rx

type_synonym caps = "nat \<Rightarrow> jsstring option"

text \<open>A state of the matcher: the input still to be read and the captures so far.\<close>

type_synonym mstate = "jsstring \<times> caps"

fun depth :: "rx \<Rightarrow> nat" where
  "depth (Seq a b) = Suc (depth a + depth b)"
| "depth (Quant mn mx r) = Suc (depth r)"
| "depth (Grp n r) = Suc (depth r)"
| "depth _ = 0"

fun qmin :: "rx \<Rightarrow> nat" where
  "qmin (Quant mn mx r) = mn"
| "qmin _ = 0"

fun groups :: "rx \<Rightarrow> nat list" where
  "groups (Seq a b) = groups a @ groups b"
| "groups (Quant mn mx r) = groups r"
| "groups (Grp n r) = n # groups r"
| "groups _ = []"

definition clear :: "nat list \<Rightarrow> caps \<Rightarrow> caps" where
  "clear ns k = (\<lambda>n. if n \<in> set ns then None else k n)"

definition dec :: "nat option \<Rightarrow> nat option" where
  "dec mx = map_option (\<lambda>m. m - 1) mx"

text \<open>
  Backtracking: the continuation is tried on every alternative in order of priority, and
  the successes are listed in that order.
\<close>

primrec try_each :: "'a list \<Rightarrow> ('a \<Rightarrow> 'b list) \<Rightarrow> 'b list" where
  "try_each [] f = []"
| "try_each (x # xs) f = f x @ try_each xs f"

lemma try_each_cong [fundef_cong]:
  "xs = ys \<Longrightarrow> (\<And>x. x \<in> set ys \<Longrightarrow> f x = g x) \<Longrightarrow> try_each xs f = try_each ys g"
  by (induction ys arbitrary: xs) auto

lemma try_each_weak_cong [cong]: "xs = ys \<Longrightarrow> try_each xs f = try_each ys f"
  by simp

text \<open>
  \<open>ms inp r s\<close> lists, best first, the states in which a match of \<open>r\<close> begun in \<open>s\<close>
  can end; \<open>inp\<close> is the whole input, which \<^verbatim>\<open>^\<close> needs. A quantifier first tries one
  more round of its body (whose captures are reset, and which must consume input once the
  minimum is reached) and only then stops.
\<close>

function ms :: "jsstring \<Rightarrow> rx \<Rightarrow> mstate \<Rightarrow> mstate list" where
  "ms inp (Cls p) s =
     (case fst s of [] \<Rightarrow> [] | c # cs \<Rightarrow> if p c then [(cs, snd s)] else [])"
| "ms inp Bol s = (if length (fst s) = length inp then [s] else [])"
| "ms inp Eol s = (if fst s = [] then [s] else [])"
| "ms inp (Seq a b) s = try_each (ms inp a s) (ms inp b)"
| "ms inp (Grp n r) s =
     map (\<lambda>s'. (fst s', (snd s')(n := Some (take (length (fst s) - length (fst s')) (fst s)))))
       (ms inp r s)"
| "ms inp (Quant mn mx r) s =
     (if mx = Some 0 then [s]
      else if mn = 0 then
        try_each (ms inp r (fst s, clear (groups r) (snd s)))
          (\<lambda>s'. if length (fst s') < length (fst s)
                then ms inp (Quant 0 (dec mx) r) s' else []) @ [s]
      else
        try_each (ms inp r (fst s, clear (groups r) (snd s)))
          (ms inp (Quant (mn - 1) (dec mx) r)))"
  by pat_completeness auto
termination
  by (relation "inv_image (less_than <*lex*> less_than <*lex*> less_than)
        (\<lambda>(inp, r, s). (depth r, qmin r, length (fst s)))") auto

declare ms.simps(6) [simp del]

text \<open>
  \<^verbatim>\<open>String.prototype.match\<close> with a pattern without the global flag: the match is tried
  at every start index from the left, and the captures of the first success are returned.
\<close>

fun exec_at :: "rx \<Rightarrow> jsstring \<Rightarrow> jsstring \<Rightarrow> caps option" where
  "exec_at r inp [] =
     (case ms inp r ([], \<lambda>_. None) of [] \<Rightarrow> None | s # _ \<Rightarrow> Some (snd s))"
| "exec_at r inp (c # cs) =
     (case ms inp r (c # cs, \<lambda>_. None) of [] \<Rightarrow> exec_at r inp cs | s # _ \<Rightarrow> Some (snd s))"

definition str_match :: "jsstring \<Rightarrow> rx \<Rightarrow> caps option" where
  "str_match s r = exec_at r s s"

section \<open>Classifying the input\<close>

text \<open>
  \<^verbatim>\<open>-?\d{1,n}(?:\.\d+)?\<close>: 45 is the minus sign and 46 the point.
\<close>

definition number_rx :: "nat \<Rightarrow> rx" where
  "number_rx n =
     Seq (Quant 0 (Some 1) (Cls (\<lambda>c. c = 45)))
       (Seq (Quant 1 (Some n) (Cls is_digit))
          (Quant 0 (Some 1) (Seq (Cls (\<lambda>c. c = 46)) (Quant 1 None (Cls is_digit)))))"

text \<open>
  \<^verbatim>\<open>/^\s*(-?\d{1,2}(?:\.\d+)?)[,\s]+(-?\d{1,3}(?:\.\d+)?)\s*$/\<close>, the literal that both
  \<^verbatim>\<open>isLatLonInput\<close> and \<^verbatim>\<open>parseLatLon\<close> write out; 44 is the comma.
\<close>

definition latlon_rx :: rx where
  "latlon_rx =
     Seq Bol
      (Seq (Quant 0 None (Cls is_space))
        (Seq (Grp 1 (number_rx 2))
          (Seq (Quant 1 None (Cls (\<lambda>c. c = 44 \<or> is_space c)))
            (Seq (Grp 2 (number_rx 3))
              (Seq (Quant 0 None (Cls is_space)) Eol)))))"

definition isLatLonInput :: "jsstring \<Rightarrow> bool" where
  "isLatLonInput q = (str_match (trim q) latlon_rx \<noteq> None)"

definition parseLatLon :: "jsstring \<Rightarrow> (number \<times> number) option" where
  "parseLatLon q =
     (case str_match (trim q) latlon_rx of
        None \<Rightarrow> None
      | Some m \<Rightarrow>
          let lat = parseFloat_capture (m 1);
              lon = parseFloat_capture (m 2)
          in if num_gt (num_abs lat) (Fin 90) \<or> num_gt (num_abs lon) (Fin 180) then None
             else Some (lat, lon))"

section \<open>The page: data\<close>

text \<open>
  The interfaces of the source as records. A field that the code reads through \<^verbatim>\<open>?.\<close>
  or tests before use may be absent and is an option; a field read unguarded has the type
  its interface declares. \<open>place_id\<close> is the field \<^verbatim>\<open>id\<close>; the fields of two
  interfaces that share a name are told apart by a prefix (\<open>current_weather_code\<close>,
  \<open>response_latitude\<close>, \<open>response_longitude\<close>).
\<close>

text \<open>
  The name of a place is a string of the geocoding service or the label that
  \<^verbatim>\<open>resolveAndFetch\<close> builds from the template \<^verbatim>\<open>(${lat.toFixed(3)}, ${lon.toFixed(3)})\<close>;
  the label is kept as the two numbers it is printed from.
\<close>

datatype place_name = Name jsstring | CoordLabel number number

record GeoResult =
  place_id :: number
  name :: place_name
  latitude :: number
  longitude :: number
  country :: "jsstring option"
  admin1 :: "jsstring option"
  admin2 :: "jsstring option"
  admin3 :: "jsstring option"
  admin4 :: "jsstring option"

record CurrentWeather =
  temperature_2m :: number
  apparent_temperature :: number
  precipitation :: number
  current_weather_code :: number
  wind_speed_10m :: number
  relative_humidity_2m :: number

record DailyWeather =
  time :: "jsstring list"
  weather_code :: "number list option"
  temperature_2m_max :: "number list option"
  temperature_2m_min :: "number list option"
  precipitation_probability_max :: "number list option"
  wind_speed_10m_max :: "number list option"

record WeatherResponse =
  response_latitude :: number
  response_longitude :: number
  timezone :: "jsstring option"
  current :: CurrentWeather
  daily :: "DailyWeather option"

datatype unit_system = metric | imperial

text \<open>The state of the component \<^verbatim>\<open>Page\<close>: one field for each \<^verbatim>\<open>useState\<close>.\<close>

record page_state =
  query :: jsstring
  units :: unit_system
  loading :: bool
  error :: "jsstring option"
  place :: "GeoResult option"
  weather :: "WeatherResponse option"
  suggestions :: "GeoResult list"

section \<open>The network\<close>

text \<open>
  What \<^verbatim>\<open>await fetch(url)\<close> followed by \<^verbatim>\<open>await res.json()\<close> can give: the fetch
  rejects (transport failure), or it resolves with a response that has the flag
  \<^verbatim>\<open>res.ok\<close> and a body that either parses to a value or makes \<^verbatim>\<open>json()\<close> reject. A
  rejection carries the \<^verbatim>\<open>message\<close> of its error, which may be absent.
\<close>

datatype 'a body = Unreadable "jsstring option" | Json 'a

datatype 'a reply = Rejected "jsstring option" | Response bool "'a body"

text \<open>
  The geocoding payload: \<^verbatim>\<open>data\<close> may be null and \<^verbatim>\<open>data.results\<close> may be missing.
\<close>

record geo_data =
  results :: "GeoResult list option"

type_synonym geo_reply = "geo_data option reply"
type_synonym forecast_reply = "WeatherResponse reply"

text \<open>
  The requests the page sends: the geocoding search with its \<^verbatim>\<open>name\<close> and \<^verbatim>\<open>count\<close>
  (the language is always \<^verbatim>\<open>en\<close>), and the forecast with its coordinates (the other
  parameters are constants).
\<close>

datatype request = GeocodeSearch jsstring nat | Forecast number number

text \<open>\<^verbatim>\<open>e?.message ?? fallback\<close>\<close>

definition message_or :: "jsstring option \<Rightarrow> jsstring \<Rightarrow> jsstring" where
  "message_or m fallback = (case m of None \<Rightarrow> fallback | Some x \<Rightarrow> x)"

section \<open>The asynchronous functions\<close>

text \<open>
  An asynchronous function runs until its \<^verbatim>\<open>await fetch\<close>, where it sends a request and
  is suspended, and runs again when the reply arrives. Each function is therefore two
  functions on the state: the part up to the request, and the part from the reply on.
\<close>

text \<open>
  A suspended call: \<^verbatim>\<open>handleSubmit\<close> waiting for the geocoding reply,
  \<^verbatim>\<open>fetchSuggestions\<close> waiting for its reply, and \<^verbatim>\<open>resolveAndFetch\<close> waiting for
  the forecast with its arguments \<^verbatim>\<open>lat\<close>, \<^verbatim>\<open>lon\<close>, \<^verbatim>\<open>chosenPlace\<close>; the flag says
  that the call is awaited inside the \<^verbatim>\<open>try\<close> block of \<^verbatim>\<open>handleSubmit\<close>, whose
  \<^verbatim>\<open>finally\<close> then runs after it.
\<close>

datatype cont =
    SubmitGeocode
  | SuggestGeocode
  | ForecastFetch number number "GeoResult option" bool

subsection \<open>fetchSuggestions\<close>

definition fetchSuggestions_start ::
    "jsstring \<Rightarrow> page_state \<Rightarrow> page_state \<times> (request \<times> cont) option" where
  "fetchSuggestions_start text s =
     (if text = [] \<or> isLatLonInput text then (s\<lparr>suggestions := []\<rparr>, None)
      else (s, Some (GeocodeSearch text 5, SuggestGeocode)))"

text \<open>
  The object literal that both \<^verbatim>\<open>fetchSuggestions\<close> and \<^verbatim>\<open>handleSubmit\<close> build from
  a result of the geocoding service, field by field.
\<close>

definition copy_result :: "GeoResult \<Rightarrow> GeoResult" where
  "copy_result r =
     \<lparr>place_id = place_id r, name = name r, latitude = latitude r, longitude = longitude r,
      country = country r, admin1 = admin1 r, admin2 = admin2 r, admin3 = admin3 r,
      admin4 = admin4 r\<rparr>"

text \<open>
  \<^verbatim>\<open>setSuggestions((data?.results || []).map(...))\<close>; the \<^verbatim>\<open>catch\<close> block is empty.
\<close>

definition fetchSuggestions_resume :: "geo_reply \<Rightarrow> page_state \<Rightarrow> page_state" where
  "fetchSuggestions_resume r s =
     (case r of
        Rejected e \<Rightarrow> s
      | Response ok b \<Rightarrow>
          (case b of
             Unreadable e \<Rightarrow> s
           | Json data \<Rightarrow>
               s\<lparr>suggestions :=
                   (case data of
                      None \<Rightarrow> []
                    | Some d \<Rightarrow>
                        (case results d of None \<Rightarrow> [] | Some rs \<Rightarrow> map copy_result rs))\<rparr>))"

subsection \<open>resolveAndFetch\<close>

text \<open>
  Up to the request the function sets \<^verbatim>\<open>loading\<close>, clears the error and the weather.
  From the reply on: a rejected fetch, a response that is not \<^verbatim>\<open>ok\<close> and a body that
  cannot be read end in the \<^verbatim>\<open>catch\<close> block; otherwise the weather and the place are
  stored. \<^verbatim>\<open>finally\<close> resets \<^verbatim>\<open>loading\<close>.
\<close>

definition resolveAndFetch_start ::
    "number \<Rightarrow> number \<Rightarrow> page_state \<Rightarrow> page_state \<times> request" where
  "resolveAndFetch_start lat lon s =
     (s\<lparr>loading := True, error := None, weather := None\<rparr>, Forecast lat lon)"

text \<open>
  The place stored for a bare pair of coordinates:
  \<^verbatim>\<open>{ id: 0, name: `(${lat.toFixed(3)}, ${lon.toFixed(3)})`, latitude: lat, longitude: lon }\<close>.
\<close>

definition coord_place :: "number \<Rightarrow> number \<Rightarrow> GeoResult" where
  "coord_place lat lon =
     \<lparr>place_id = Fin 0, name = CoordLabel lat lon, latitude = lat, longitude = lon,
      country = None, admin1 = None, admin2 = None, admin3 = None, admin4 = None\<rparr>"

text \<open>The replies that take \<^verbatim>\<open>resolveAndFetch\<close> into its \<^verbatim>\<open>catch\<close> block.\<close>

fun forecast_failed :: "forecast_reply \<Rightarrow> bool" where
  "forecast_failed (Rejected e) = True"
| "forecast_failed (Response ok (Unreadable e)) = True"
| "forecast_failed (Response ok (Json raw)) = (\<not> ok)"

definition resolveAndFetch_resume ::
    "number \<Rightarrow> number \<Rightarrow> GeoResult option \<Rightarrow> forecast_reply \<Rightarrow> page_state \<Rightarrow> page_state" where
  "resolveAndFetch_resume lat lon chosenPlace r s =
     (case r of
        Rejected e \<Rightarrow>
          s\<lparr>error := Some (message_or e (js ''Something went wrong'')), loading := False\<rparr>
      | Response ok b \<Rightarrow>
          if \<not> ok then s\<lparr>error := Some (js ''Failed to fetch weather''), loading := False\<rparr>
          else
            (case b of
               Unreadable e \<Rightarrow>
                 s\<lparr>error := Some (message_or e (js ''Something went wrong'')),
                   loading := False\<rparr>
             | Json raw \<Rightarrow>
                 s\<lparr>weather :=
                     Some \<lparr>response_latitude = response_latitude raw,
                           response_longitude = response_longitude raw,
                           timezone = timezone raw,
                           current = current raw,
                           daily = daily raw\<rparr>,
                   place :=
                     Some (case chosenPlace of
                             Some p \<Rightarrow> p
                           | None \<Rightarrow> coord_place lat lon),
                   loading := False\<rparr>))"

subsection \<open>handleSubmit\<close>

text \<open>\<^verbatim>\<open>data?.results?.[0]\<close>\<close>

definition first_result :: "geo_data option \<Rightarrow> GeoResult option" where
  "first_result data =
     (case data of
        None \<Rightarrow> None
      | Some d \<Rightarrow> (case results d of None \<Rightarrow> None | Some [] \<Rightarrow> None | Some (r # _) \<Rightarrow> Some r))"

definition handleSubmit_start :: "page_state \<Rightarrow> page_state \<times> request \<times> cont" where
  "handleSubmit_start s =
     (let s1 = s\<lparr>error := None\<rparr>
      in case parseLatLon (query s) of
           Some ll \<Rightarrow>
             (let (s2, rq) = resolveAndFetch_start (fst ll) (snd ll) s1
              in (s2, rq, ForecastFetch (fst ll) (snd ll) None False))
         | None \<Rightarrow>
             (s1\<lparr>loading := True\<rparr>, GeocodeSearch (trim (query s)) 1, SubmitGeocode))"

text \<open>The \<^verbatim>\<open>finally\<close> block of \<^verbatim>\<open>handleSubmit\<close>.\<close>

definition handleSubmit_finally :: "page_state \<Rightarrow> page_state" where
  "handleSubmit_finally s = s\<lparr>loading := False\<rparr>"

text \<open>
  The part of \<^verbatim>\<open>handleSubmit\<close> from the geocoding reply on. An exception is caught, its
  message becomes the error, and \<^verbatim>\<open>finally\<close> runs. With a first result the function
  calls \<^verbatim>\<open>resolveAndFetch\<close> and is suspended again until that call is over.
\<close>

definition handleSubmit_resume ::
    "geo_reply \<Rightarrow> page_state \<Rightarrow> page_state \<times> (request \<times> cont) option" where
  "handleSubmit_resume r s =
     (case r of
        Rejected e \<Rightarrow>
          (handleSubmit_finally
             (s\<lparr>error := Some (message_or e (js ''Failed to resolve location''))\<rparr>), None)
      | Response ok b \<Rightarrow>
          (case b of
             Unreadable e \<Rightarrow>
               (handleSubmit_finally
                  (s\<lparr>error := Some (message_or e (js ''Failed to resolve location''))\<rparr>),
                None)
           | Json data \<Rightarrow>
               (case first_result data of
                  None \<Rightarrow>
                    (handleSubmit_finally
                       (s\<lparr>error := Some (js ''No matching locations found'')\<rparr>), None)
                | Some first \<Rightarrow>
                    (let chosen = copy_result first;
                         (s', rq) = resolveAndFetch_start (latitude chosen) (longitude chosen) s
                     in (s', Some (rq, ForecastFetch (latitude chosen) (longitude chosen)
                                         (Some chosen) True))))))"

subsection \<open>fiveDay\<close>

record DailyForecastEntry =
  date :: jsstring
  code :: "number option"
  tmax :: "number option"
  tmin :: "number option"
  ppop :: "number option"
  wmax :: "number option"

text \<open>\<^verbatim>\<open>xs?.[i]\<close>: undefined when the array is absent or has no element at \<open>i\<close>.\<close>

definition at_index :: "'a list option \<Rightarrow> nat \<Rightarrow> 'a option" where
  "at_index xs i =
     (case xs of None \<Rightarrow> None | Some l \<Rightarrow> if i < length l then Some (l ! i) else None)"

definition fiveDay :: "WeatherResponse option \<Rightarrow> DailyForecastEntry list" where
  "fiveDay w =
     (case w of
        None \<Rightarrow> []
      | Some r \<Rightarrow>
          (case daily r of
             None \<Rightarrow> []
           | Some d \<Rightarrow>
               take 5
                 (map (\<lambda>(i, t).
                         \<lparr>date = t,
                          code = at_index (weather_code d) i,
                          tmax = at_index (temperature_2m_max d) i,
                          tmin = at_index (temperature_2m_min d) i,
                          ppop = at_index (precipitation_probability_max d) i,
                          wmax = at_index (wind_speed_10m_max d) i\<rparr>)
                    (enumerate 0 (time d)))))"

section \<open>The event loop\<close>

text \<open>
  The page together with the calls that are suspended and the requests sent so far. An
  event is a user action (typing the query, submitting the form), the firing of the
  debounce timer of the suggestions, or the arrival of the reply for the suspended call
  at a given index; replies can arrive in any order. \<open>step\<close> is \<open>None\<close> when there is
  no such suspended call. A reply to \<^verbatim>\<open>handleSubmit\<close> that ends in a forecast request
  suspends the call again.
\<close>

record system =
  ui :: page_state
  pending :: "cont list"
  sent :: "request list"

datatype event =
    SetQuery jsstring
  | Submit
  | SuggestTimer
  | GeocodeReply nat geo_reply
  | ForecastReply nat forecast_reply

definition remove_nth :: "nat \<Rightarrow> 'a list \<Rightarrow> 'a list" where
  "remove_nth i xs = take i xs @ drop (Suc i) xs"

fun step :: "event \<Rightarrow> system \<Rightarrow> system option" where
  "step (SetQuery t) y = Some (y\<lparr>ui := (ui y)\<lparr>query := t\<rparr>\<rparr>)"
| "step Submit y =
     (let (s, rq, k) = handleSubmit_start (ui y)
      in Some \<lparr>ui = s, pending = pending y @ [k], sent = sent y @ [rq]\<rparr>)"
| "step SuggestTimer y =
     (case fetchSuggestions_start (query (ui y)) (ui y) of
        (s, None) \<Rightarrow> Some (y\<lparr>ui := s\<rparr>)
      | (s, Some (rq, k)) \<Rightarrow>
          Some \<lparr>ui = s, pending = pending y @ [k], sent = sent y @ [rq]\<rparr>)"
| "step (GeocodeReply i r) y =
     (if i < length (pending y) then
        (case pending y ! i of
           SubmitGeocode \<Rightarrow>
             (case handleSubmit_resume r (ui y) of
                (s, None) \<Rightarrow>
                  Some \<lparr>ui = s, pending = remove_nth i (pending y), sent = sent y\<rparr>
              | (s, Some (rq, k)) \<Rightarrow>
                  Some \<lparr>ui = s, pending = remove_nth i (pending y) @ [k],
                        sent = sent y @ [rq]\<rparr>)
         | SuggestGeocode \<Rightarrow>
             Some \<lparr>ui = fetchSuggestions_resume r (ui y),
                   pending = remove_nth i (pending y), sent = sent y\<rparr>
         | ForecastFetch lat lon cp in_try \<Rightarrow> None)
      else None)"
| "step (ForecastReply i r) y =
     (if i < length (pending y) then
        (case pending y ! i of
           ForecastFetch lat lon cp in_try \<Rightarrow>
             (let s = resolveAndFetch_resume lat lon cp r (ui y)
              in Some \<lparr>ui = (if in_try then handleSubmit_finally s else s),
                       pending = remove_nth i (pending y), sent = sent y\<rparr>)
         | _ \<Rightarrow> None)
      else None)"

fun run :: "event list \<Rightarrow> system \<Rightarrow> system option" where
  "run [] y = Some y"
| "run (e # es) y = (case step e y of None \<Rightarrow> None | Some y' \<Rightarrow> run es y')"

text \<open>
  The events that write a weather view: the arrival of a forecast reply that does not
  take \<^verbatim>\<open>resolveAndFetch\<close> into its \<^verbatim>\<open>catch\<close> block.
\<close>

fun commits_view :: "event \<Rightarrow> bool" where
  "commits_view (ForecastReply i r) = (\<not> forecast_failed r)"
| "commits_view _ = False"

section \<open>The properties, in the words of the specification\<close>

text \<open>
  The coordinate pattern as the specification describes it: an optional sign (the minus
  sign, code 45; the pattern of the program has no plus sign), one to \<open>n\<close> integer
  digits, and an optional fraction (a point, code 46, and at least one digit).
\<close>

definition decimal_number :: "nat \<Rightarrow> jsstring \<Rightarrow> bool" where
  "decimal_number n w \<longleftrightarrow>
     (\<exists>sg ds fr. w = sg @ ds @ fr \<and> (sg = [] \<or> sg = [45]) \<and>
        1 \<le> length ds \<and> length ds \<le> n \<and> (\<forall>c\<in>set ds. is_digit c) \<and>
        (fr = [] \<or> (\<exists>fs. fr = 46 # fs \<and> fs \<noteq> [] \<and> (\<forall>c\<in>set fs. is_digit c))))"

definition separator :: "jsstring \<Rightarrow> bool" where
  "separator w \<longleftrightarrow> w \<noteq> [] \<and> (\<forall>c\<in>set w. c = 44 \<or> is_space c)"

text \<open>
  The text \<open>t\<close> is a coordinate pair with the values \<open>lat\<close> and \<open>lon\<close>: a latitude of
  at most two integer digits, a separator of commas and white space, a longitude of at most
  three integer digits, and parsed values within \<open>|lat| \<le> 90\<close> and \<open>|lon| \<le> 180\<close>.
\<close>

definition coordinate_text :: "jsstring \<Rightarrow> number \<Rightarrow> number \<Rightarrow> bool" where
  "coordinate_text t lat lon \<longleftrightarrow>
     (\<exists>a sep b x y. t = a @ sep @ b \<and> decimal_number 2 a \<and> separator sep \<and>
        decimal_number 3 b \<and> parseFloat a = Fin x \<and> parseFloat b = Fin y \<and>
        \<bar>x\<bar> \<le> 90 \<and> \<bar>y\<bar> \<le> 180 \<and> lat = Fin x \<and> lon = Fin y)"

text \<open>
  The value \<open>v\<close> of an entry is taken from the array \<open>arr\<close> at index \<open>i\<close>: the element
  there when the array exists and is long enough, and unknown otherwise.
\<close>

definition field_from :: "number option \<Rightarrow> number list option \<Rightarrow> nat \<Rightarrow> bool" where
  "field_from v arr i \<longleftrightarrow>
     (case arr of
        None \<Rightarrow> v = None
      | Some xs \<Rightarrow> if i < length xs then v = Some (xs ! i) else v = None)"

text \<open>The operator \<^verbatim>\<open><=\<close> on numbers.\<close>

fun num_le :: "number \<Rightarrow> number \<Rightarrow> bool" where
  "num_le (Fin x) (Fin y) = (x \<le> y)"
| "num_le (Inf neg) (Fin y) = neg"
| "num_le (Fin x) (Inf neg) = (\<not> neg)"
| "num_le (Inf a) (Inf b) = (a \<or> \<not> b)"
| "num_le _ _ = False"

section \<open>The language of a pattern\<close>

text \<open>
  A pattern without anchors and groups, whose quantifiers have \<open>min \<le> max\<close>, is
  \<open>plain\<close> and denotes a set of strings, \<open>lang\<close>. \<open>ends r s\<close> are the states reached
  from \<open>s\<close> by reading a string of \<open>lang r\<close>, with the captures unchanged: the states
  in which the backtracking matcher ends (lemma \<open>ms_plain\<close>).
\<close>

fun fits :: "nat option \<Rightarrow> nat \<Rightarrow> bool" where
  "fits None n = True"
| "fits (Some m) n = (n \<le> m)"

fun plain :: "rx \<Rightarrow> bool" where
  "plain (Cls p) = True"
| "plain (Seq a b) = (plain a \<and> plain b)"
| "plain (Quant mn mx r) = (plain r \<and> fits mx mn)"
| "plain _ = False"

fun lang :: "rx \<Rightarrow> jsstring set" where
  "lang (Cls p) = {[c] | c. p c}"
| "lang (Seq a b) = {u @ v | u v. u \<in> lang a \<and> v \<in> lang b}"
| "lang (Quant mn mx r) =
     {concat ws | ws. mn \<le> length ws \<and> fits mx (length ws) \<and> set ws \<subseteq> lang r}"
| "lang _ = {}"

declare lang.simps(3) [simp del]

definition ends :: "rx \<Rightarrow> mstate \<Rightarrow> mstate set" where
  "ends r s = {(rest, snd s) | rest. \<exists>w\<in>lang r. fst s = w @ rest}"

text \<open>A string of white space; a character of the separator.\<close>

definition spaces :: "jsstring \<Rightarrow> bool" where
  "spaces w \<longleftrightarrow> (\<forall>c\<in>set w. is_space c)"

definition sep_char :: "code_unit \<Rightarrow> bool" where
  "sep_char c \<longleftrightarrow> c = 44 \<or> is_space c"

section \<open>Sample data\<close>

definition sample_current :: CurrentWeather where
  "sample_current =
     \<lparr>temperature_2m = Fin 21, apparent_temperature = Fin 20, precipitation = Fin 0,
      current_weather_code = Fin 1, wind_speed_10m = Fin 3, relative_humidity_2m = Fin 40\<rparr>"

definition sample_daily :: DailyWeather where
  "sample_daily =
     \<lparr>time = map js [''2024-05-01'', ''2024-05-02'', ''2024-05-03'', ''2024-05-04'',
                      ''2024-05-05'', ''2024-05-06'', ''2024-05-07''],
      weather_code = Some (map Fin [0, 1, 2, 3, 45, 61, 95]),
      temperature_2m_max = Some (map Fin [20, 21, 22, 23, 24, 25, 26]),
      temperature_2m_min = Some (map Fin [10, 11, 12, 13, 14, 15]),
      precipitation_probability_max = Some [],
      wind_speed_10m_max = None\<rparr>"

definition sample_weather :: "rat \<Rightarrow> rat \<Rightarrow> WeatherResponse" where
  "sample_weather la lo =
     \<lparr>response_latitude = Fin la, response_longitude = Fin lo, timezone = None,
      current = sample_current, daily = Some sample_daily\<rparr>"


definition initial_page :: page_state where
  "initial_page =
     \<lparr>query = [], units = metric, loading = False, error = None, place = None,
      weather = None, suggestions = []\<rparr>"

definition initial_system :: system where
  "initial_system = \<lparr>ui = initial_page, pending = [], sent = []\<rparr>"

section \<open>Evaluating the model\<close>

lemmas classify_eval =
  isLatLonInput_def parseLatLon_def js_def trim_def is_space_def is_digit_def str_match_def
  latlon_rx_def number_rx_def dec_def clear_def parseFloat_capture_def parseFloat_def
  to_double_def ilog2_def round_ties_even_def pow2_def digits_val_def bitlen.simps ms.simps
  Let_def

lemmas page_eval =
  fetchSuggestions_start_def fetchSuggestions_resume_def resolveAndFetch_start_def
  resolveAndFetch_resume_def handleSubmit_start_def handleSubmit_resume_def
  handleSubmit_finally_def first_result_def message_or_def remove_nth_def coord_place_def
  copy_result_def Let_def

section \<open>Correctness of the matcher\<close>

lemma set_try_each: "set (try_each xs f) = (\<Union>x\<in>set xs. set (f x))"
  by (induction xs) auto

lemma groups_plain: "plain r \<Longrightarrow> groups r = []"
  by (induction r) auto

lemma clear_Nil [simp]: "clear [] k = k"
  by (simp add: clear_def)

lemma fits_dec: "mx \<noteq> Some 0 \<Longrightarrow> fits (dec mx) n \<longleftrightarrow> fits mx (Suc n)"
  by (cases mx) (auto simp: dec_def)

lemma concat_filter_nonempty: "concat (filter (\<lambda>w. w \<noteq> []) ws) = concat ws"
  by (induction ws) auto

lemma endsI: "w \<in> lang r \<Longrightarrow> fst s = w @ rest \<Longrightarrow> k = snd s \<Longrightarrow> (rest, k) \<in> ends r s"
  unfolding ends_def by blast

lemma endsE:
  assumes "s2 \<in> ends r s"
  obtains w where "w \<in> lang r" "fst s = w @ fst s2" "snd s2 = snd s"
  using assms unfolding ends_def by auto

lemma lang_QuantI:
  "mn \<le> length ws \<Longrightarrow> fits mx (length ws) \<Longrightarrow> set ws \<subseteq> lang r \<Longrightarrow>
   concat ws \<in> lang (Quant mn mx r)"
  unfolding lang.simps by blast

lemma lang_QuantE:
  assumes "w \<in> lang (Quant mn mx r)"
  obtains ws where "w = concat ws" "mn \<le> length ws" "fits mx (length ws)" "set ws \<subseteq> lang r"
  using assms unfolding lang.simps by blast

lemma ends_quant_stop: "fits mx 0 \<Longrightarrow> s \<in> ends (Quant 0 mx r) s"
proof -
  assume "fits mx 0"
  then have "[] \<in> lang (Quant 0 mx r)"
    unfolding lang.simps by (intro CollectI exI [of _ "[]"]) simp
  then have "(fst s, snd s) \<in> ends (Quant 0 mx r) s"
    unfolding ends_def by (intro CollectI exI [of _ "fst s"] conjI bexI [of _ "[]"]) simp_all
  then show ?thesis by simp
qed

lemma fits_0: "fits mx mn \<Longrightarrow> fits mx 0"
  by (cases mx) auto

lemma ends_quant_step:
  assumes mx: "mx \<noteq> Some 0"
    and s1: "s1 \<in> ends r s" and s2: "s2 \<in> ends (Quant (mn - 1) (dec mx) r) s1"
  shows "s2 \<in> ends (Quant mn mx r) s"
proof -
  from s1 obtain w where w: "w \<in> lang r" "fst s = w @ fst s1" "snd s1 = snd s"
    by (rule endsE)
  from s2 obtain u where u: "u \<in> lang (Quant (mn - 1) (dec mx) r)"
      "fst s1 = u @ fst s2" "snd s2 = snd s1"
    by (rule endsE)
  from u(1) obtain ws where ws: "u = concat ws" "mn - 1 \<le> length ws"
      "fits (dec mx) (length ws)" "set ws \<subseteq> lang r"
    by (rule lang_QuantE)
  have "mn \<le> length (w # ws)" using ws(2) by simp
  moreover have "fits mx (length (w # ws))" using ws(3) mx by (simp add: fits_dec)
  moreover have "set (w # ws) \<subseteq> lang r" using w(1) ws(4) by simp
  ultimately have "concat (w # ws) \<in> lang (Quant mn mx r)"
    by (rule lang_QuantI)
  moreover have "fst s = concat (w # ws) @ fst s2"
    using w(2) u(2) ws(1) by simp
  moreover have "snd s2 = snd s" using w(3) u(3) by simp
  ultimately have "(fst s2, snd s2) \<in> ends (Quant mn mx r) s"
    by (rule endsI)
  then show ?thesis by simp
qed

lemma ends_quant_cases:
  assumes "s2 \<in> ends (Quant mn mx r) s" and mx: "mx \<noteq> Some 0"
  shows "(mn = 0 \<and> s2 = s) \<or>
         (\<exists>s1. s1 \<in> ends r s \<and> (mn = 0 \<longrightarrow> length (fst s1) < length (fst s)) \<and>
               s2 \<in> ends (Quant (mn - 1) (dec mx) r) s1)"
proof -
  from assms(1) obtain u where u: "u \<in> lang (Quant mn mx r)" "fst s = u @ fst s2"
      "snd s2 = snd s"
    by (rule endsE)
  from u(1) obtain ws where ws: "u = concat ws" "mn \<le> length ws" "fits mx (length ws)"
      "set ws \<subseteq> lang r"
    by (rule lang_QuantE)
  show ?thesis
  proof (cases "mn = 0")
    case True
    define vs where "vs = filter (\<lambda>w. w \<noteq> []) ws"
    have vs: "concat vs = concat ws" "length vs \<le> length ws" "set vs \<subseteq> lang r"
      using ws(4) by (auto simp: vs_def concat_filter_nonempty)
    show ?thesis
    proof (cases vs)
      case Nil
      with vs(1) ws(1) u(2,3) have "s2 = s" by (simp add: prod_eq_iff)
      with True show ?thesis by simp
    next
      case (Cons v vs')
      then have "v \<in> set vs" by simp
      then have v: "v \<noteq> []" "v \<in> lang r" using ws(4) by (auto simp: vs_def)
      let ?s1 = "(concat vs' @ fst s2, snd s)"
      have eq: "fst s = v @ concat vs' @ fst s2"
        using u(2) ws(1) vs(1) Cons by simp
      have s1: "?s1 \<in> ends r s"
        using v(2) eq by (rule endsI) simp
      have shorter: "length (fst ?s1) < length (fst s)"
        using eq v(1) by simp
      have "Suc (length vs') \<le> length ws" using vs(2) Cons by simp
      with ws(3) have "fits mx (Suc (length vs'))" by (cases mx) auto
      with mx have "fits (dec mx) (length vs')" by (simp add: fits_dec)
      moreover have "set vs' \<subseteq> lang r" using vs(3) Cons by simp
      moreover have "mn - 1 \<le> length vs'" using True by simp
      ultimately have "concat vs' \<in> lang (Quant (mn - 1) (dec mx) r)"
        by (intro lang_QuantI)
      then have "(fst s2, snd s2) \<in> ends (Quant (mn - 1) (dec mx) r) ?s1"
        by (rule endsI) (simp_all add: u(3))
      then have "s2 \<in> ends (Quant (mn - 1) (dec mx) r) ?s1" by simp
      with s1 shorter show ?thesis by blast
    qed
  next
    case False
    with ws(2) obtain w ws' where c: "ws = w # ws'" by (cases ws) auto
    let ?s1 = "(concat ws' @ fst s2, snd s)"
    have "w \<in> lang r" using ws(4) c by simp
    moreover have "fst s = w @ concat ws' @ fst s2" using u(2) ws(1) c by simp
    ultimately have s1: "?s1 \<in> ends r s"
      by (rule endsI) simp
    have "mn - 1 \<le> length ws'" using ws(2) c by simp
    moreover have "fits (dec mx) (length ws')" using ws(3) c mx by (simp add: fits_dec)
    moreover have "set ws' \<subseteq> lang r" using ws(4) c by simp
    ultimately have "concat ws' \<in> lang (Quant (mn - 1) (dec mx) r)"
      by (intro lang_QuantI)
    then have "(fst s2, snd s2) \<in> ends (Quant (mn - 1) (dec mx) r) ?s1"
      by (rule endsI) (simp_all add: u(3))
    then have "s2 \<in> ends (Quant (mn - 1) (dec mx) r) ?s1" by simp
    with s1 False show ?thesis by blast
  qed
qed


lemma ends_Seq: "ends (Seq a b) s = (\<Union>x\<in>ends a s. ends b x)"
proof (intro equalityI subsetI)
  fix s2 assume "s2 \<in> ends (Seq a b) s"
  then obtain w where w: "w \<in> lang (Seq a b)" "fst s = w @ fst s2" "snd s2 = snd s"
    by (rule endsE)
  from w(1) obtain u v where uv: "w = u @ v" "u \<in> lang a" "v \<in> lang b" by auto
  let ?s1 = "(v @ fst s2, snd s)"
  have "?s1 \<in> ends a s"
    using uv(2) by (rule endsI) (simp_all add: w(2) uv(1))
  moreover have "(fst s2, snd s2) \<in> ends b ?s1"
    using uv(3) by (rule endsI) (simp_all add: w(3))
  ultimately show "s2 \<in> (\<Union>x\<in>ends a s. ends b x)" by auto
next
  fix s2 assume "s2 \<in> (\<Union>x\<in>ends a s. ends b x)"
  then obtain s1 where s1: "s1 \<in> ends a s" "s2 \<in> ends b s1" by blast
  from s1(1) obtain u where u: "u \<in> lang a" "fst s = u @ fst s1" "snd s1 = snd s"
    by (rule endsE)
  from s1(2) obtain v where v: "v \<in> lang b" "fst s1 = v @ fst s2" "snd s2 = snd s1"
    by (rule endsE)
  have "u @ v \<in> lang (Seq a b)" using u(1) v(1) by auto
  then have "(fst s2, snd s2) \<in> ends (Seq a b) s"
    by (rule endsI) (simp_all add: u v)
  then show "s2 \<in> ends (Seq a b) s" by simp
qed

lemma ends_Cls: "ends (Cls p) s = set (case fst s of [] \<Rightarrow> [] | c # cs \<Rightarrow> if p c then [(cs, snd s)] else [])"
proof (cases "fst s")
  case Nil
  then show ?thesis by (auto simp: ends_def)
next
  case (Cons c cs)
  then show ?thesis by (cases s) (auto simp: ends_def)
qed

lemma set_try_each_guard:
  "set (try_each xs (\<lambda>x. if P x then f x else [])) = (\<Union>x\<in>{x \<in> set xs. P x}. set (f x))"
  by (induction xs) auto

lemma ms_plain: "plain r \<Longrightarrow> set (ms inp r s) = ends r s"
proof (induction inp r s rule: ms.induct)
  case (1 inp p s)
  show ?case by (simp add: ends_Cls)
next
  case (4 inp a b s)
  then have a: "set (ms inp a s) = ends a s"
    and b: "\<And>x. x \<in> ends a s \<Longrightarrow> set (ms inp b x) = ends b x"
    by auto
  show ?case
    using a b by (simp add: set_try_each ends_Seq)
next
  case (6 inp mn mx r s)
  then have pr: "plain r" and wi: "fits mx mn" by auto
  have g: "(fst s, clear (groups r) (snd s)) = s"
    using pr by (simp add: groups_plain)
  show ?case
  proof (cases "mx = Some 0")
    case True
    with wi have mn: "mn = 0" by simp
    have "ends (Quant mn mx r) s = {s}"
    proof (intro equalityI subsetI)
      fix s2 assume "s2 \<in> ends (Quant mn mx r) s"
      then obtain u where u: "u \<in> lang (Quant mn mx r)" "fst s = u @ fst s2" "snd s2 = snd s"
        by (rule endsE)
      from u(1) obtain ws where "u = concat ws" "fits mx (length ws)" by (rule lang_QuantE)
      with True have "u = []" by simp
      with u show "s2 \<in> {s}" by (simp add: prod_eq_iff)
    next
      fix s2 assume "s2 \<in> {s}"
      then show "s2 \<in> ends (Quant mn mx r) s"
        using ends_quant_stop [of mx s r] True mn by simp
    qed
    moreover have "ms inp (Quant mn mx r) s = [s]"
      by (subst ms.simps(6)) (simp add: True)
    ultimately show ?thesis by simp
  next
    case mx: False
    have body: "set (ms inp r s) = ends r s"
      using "6.IH"(1,3) [OF mx] pr g by (cases "mn = 0") auto
    have wd: "plain (Quant (mn - 1) (dec mx) r)"
      using wi mx pr by (cases mx; cases mn) (auto simp: dec_def)
    show ?thesis
    proof (cases "mn = 0")
      case True
      have rec: "set (ms inp (Quant 0 (dec mx) r) x) = ends (Quant 0 (dec mx) r) x"
        if "x \<in> ends r s" "length (fst x) < length (fst s)" for x
        using "6.IH"(2) [OF mx True, of x] that body g wd True by simp
      have "ms inp (Quant mn mx r) s =
              try_each (ms inp r s)
                (\<lambda>s'. if length (fst s') < length (fst s)
                      then ms inp (Quant 0 (dec mx) r) s' else []) @ [s]"
        by (subst ms.simps(6)) (simp add: mx True g)
      then have "set (ms inp (Quant mn mx r) s) =
              (\<Union>x\<in>{x \<in> ends r s. length (fst x) < length (fst s)}.
                  set (ms inp (Quant 0 (dec mx) r) x)) \<union> {s}"
        by (simp add: set_try_each_guard body)
      also have "\<dots> = (\<Union>x\<in>{x \<in> ends r s. length (fst x) < length (fst s)}.
                  ends (Quant 0 (dec mx) r) x) \<union> {s}"
        using rec by simp
      also have "\<dots> = ends (Quant mn mx r) s"
      proof (intro equalityI subsetI)
        fix s2 assume "s2 \<in> (\<Union>x\<in>{x \<in> ends r s. length (fst x) < length (fst s)}.
                  ends (Quant 0 (dec mx) r) x) \<union> {s}"
        then consider "s2 = s"
          | s1 where "s1 \<in> ends r s" "s2 \<in> ends (Quant (mn - 1) (dec mx) r) s1"
          using True by auto
        then show "s2 \<in> ends (Quant mn mx r) s"
        proof cases
          case 1
          then show ?thesis using ends_quant_stop [of mx s r] wi True by (simp add: fits_0)
        next
          case 2
          then show ?thesis using ends_quant_step [OF mx] by blast
        qed
      next
        fix s2 assume "s2 \<in> ends (Quant mn mx r) s"
        from ends_quant_cases [OF this mx] True
        show "s2 \<in> (\<Union>x\<in>{x \<in> ends r s. length (fst x) < length (fst s)}.
                  ends (Quant 0 (dec mx) r) x) \<union> {s}"
          by auto
      qed
      finally show ?thesis .
    next
      case False
      have rec: "set (ms inp (Quant (mn - 1) (dec mx) r) x) = ends (Quant (mn - 1) (dec mx) r) x"
        if "x \<in> ends r s" for x
        using "6.IH"(4) [OF mx False, of x] that body g wd by simp
      have "ms inp (Quant mn mx r) s =
              try_each (ms inp r s) (ms inp (Quant (mn - 1) (dec mx) r))"
        by (subst ms.simps(6)) (simp add: mx False g)
      then have "set (ms inp (Quant mn mx r) s) =
              (\<Union>x\<in>ends r s. set (ms inp (Quant (mn - 1) (dec mx) r) x))"
        by (simp add: set_try_each body)
      also have "\<dots> = (\<Union>x\<in>ends r s. ends (Quant (mn - 1) (dec mx) r) x)"
        using rec by simp
      also have "\<dots> = ends (Quant mn mx r) s"
      proof (intro equalityI subsetI)
        fix s2 assume "s2 \<in> (\<Union>x\<in>ends r s. ends (Quant (mn - 1) (dec mx) r) x)"
        then show "s2 \<in> ends (Quant mn mx r) s"
          using ends_quant_step [OF mx] by blast
      next
        fix s2 assume "s2 \<in> ends (Quant mn mx r) s"
        from ends_quant_cases [OF this mx] False
        show "s2 \<in> (\<Union>x\<in>ends r s. ends (Quant (mn - 1) (dec mx) r) x)"
          by auto
      qed
      finally show ?thesis .
    qed
  qed
qed simp_all

lemma concat_singletons:
  "set ws \<subseteq> {[c] | c. p c} \<Longrightarrow> length (concat ws) = length ws \<and> (\<forall>c\<in>set (concat ws). p c)"
  by (induction ws) auto

lemma lang_quant_cls:
  "lang (Quant mn mx (Cls p)) = {w. mn \<le> length w \<and> fits mx (length w) \<and> (\<forall>c\<in>set w. p c)}"
proof (intro equalityI subsetI)
  fix w assume "w \<in> lang (Quant mn mx (Cls p))"
  then obtain ws where ws: "w = concat ws" "mn \<le> length ws" "fits mx (length ws)"
      "set ws \<subseteq> lang (Cls p)"
    by (rule lang_QuantE)
  from ws(4) have "length (concat ws) = length ws \<and> (\<forall>c\<in>set (concat ws). p c)"
    by (intro concat_singletons) simp
  with ws show "w \<in> {w. mn \<le> length w \<and> fits mx (length w) \<and> (\<forall>c\<in>set w. p c)}"
    by simp
next
  fix w assume "w \<in> {w. mn \<le> length w \<and> fits mx (length w) \<and> (\<forall>c\<in>set w. p c)}"
  then have w: "mn \<le> length w" "fits mx (length w)" "\<forall>c\<in>set w. p c" by auto
  let ?ws = "map (\<lambda>c. [c]) w"
  have "concat ?ws \<in> lang (Quant mn mx (Cls p))"
    using w by (intro lang_QuantI) auto
  moreover have "concat ?ws = w" by (induction w) auto
  ultimately show "w \<in> lang (Quant mn mx (Cls p))" by simp
qed

lemma lang_opt: "lang (Quant 0 (Some 1) r) = insert [] (lang r)"
proof (intro equalityI subsetI)
  fix w assume "w \<in> lang (Quant 0 (Some 1) r)"
  then obtain ws where ws: "w = concat ws" "fits (Some 1) (length ws)" "set ws \<subseteq> lang r"
    by (rule lang_QuantE)
  from ws(2) have "ws = [] \<or> (\<exists>v. ws = [v])"
    by (cases ws) auto
  with ws show "w \<in> insert [] (lang r)" by auto
next
  fix w assume w: "w \<in> insert [] (lang r)"
  show "w \<in> lang (Quant 0 (Some 1) r)"
  proof (cases "w = []")
    case True
    have "concat [] \<in> lang (Quant 0 (Some 1) r)" by (intro lang_QuantI) simp_all
    with True show ?thesis by simp
  next
    case False
    with w have "concat [w] \<in> lang (Quant 0 (Some 1) r)" by (intro lang_QuantI) simp_all
    then show ?thesis by simp
  qed
qed

lemma lang_sign: "lang (Quant 0 (Some 1) (Cls (\<lambda>c. c = 45))) = {[], [45]}"
  unfolding lang_opt lang.simps(1) by auto

lemma lang_digits:
  "lang (Quant 1 (Some n) (Cls is_digit)) =
     {ds. 1 \<le> length ds \<and> length ds \<le> n \<and> (\<forall>c\<in>set ds. is_digit c)}"
  unfolding lang_quant_cls fits.simps by (rule refl)

lemma lang_fraction:
  "lang (Quant 0 (Some 1) (Seq (Cls (\<lambda>c. c = 46)) (Quant 1 None (Cls is_digit)))) =
     {fr. fr = [] \<or> (\<exists>fs. fr = 46 # fs \<and> fs \<noteq> [] \<and> (\<forall>c\<in>set fs. is_digit c))}"
proof -
  have "lang (Seq (Cls (\<lambda>c. c = 46)) (Quant 1 None (Cls is_digit))) =
          {46 # fs | fs. fs \<noteq> [] \<and> (\<forall>c\<in>set fs. is_digit c)}"
    unfolding lang.simps(1,2) lang_quant_cls
    by (auto simp: Suc_le_eq)
  then show ?thesis
    unfolding lang_opt by auto
qed

lemma lang_number_rx: "lang (number_rx n) = {w. decimal_number n w}"
proof (intro equalityI subsetI)
  fix w assume "w \<in> lang (number_rx n)"
  then obtain sg v where sg: "w = sg @ v" "sg \<in> lang (Quant 0 (Some 1) (Cls (\<lambda>c. c = 45)))"
      "v \<in> lang (Seq (Quant 1 (Some n) (Cls is_digit))
             (Quant 0 (Some 1) (Seq (Cls (\<lambda>c. c = 46)) (Quant 1 None (Cls is_digit)))))"
    unfolding number_rx_def lang.simps(2) by blast
  from sg(3) obtain ds fr where v: "v = ds @ fr" "ds \<in> lang (Quant 1 (Some n) (Cls is_digit))"
      "fr \<in> lang (Quant 0 (Some 1) (Seq (Cls (\<lambda>c. c = 46)) (Quant 1 None (Cls is_digit))))"
    unfolding lang.simps(2) by blast
  have "w = sg @ ds @ fr" using sg(1) v(1) by simp
  moreover have "sg = [] \<or> sg = [45]" using sg(2) unfolding lang_sign by simp
  moreover have "1 \<le> length ds \<and> length ds \<le> n \<and> (\<forall>c\<in>set ds. is_digit c)"
    using v(2) unfolding lang_digits by simp
  moreover have "fr = [] \<or> (\<exists>fs. fr = 46 # fs \<and> fs \<noteq> [] \<and> (\<forall>c\<in>set fs. is_digit c))"
    using v(3) unfolding lang_fraction by simp
  ultimately have "decimal_number n w"
    unfolding decimal_number_def by blast
  then show "w \<in> {w. decimal_number n w}" by simp
next
  fix w assume "w \<in> {w. decimal_number n w}"
  then obtain sg ds fr where w: "w = sg @ ds @ fr" "sg = [] \<or> sg = [45]"
      "1 \<le> length ds \<and> length ds \<le> n \<and> (\<forall>c\<in>set ds. is_digit c)"
      "fr = [] \<or> (\<exists>fs. fr = 46 # fs \<and> fs \<noteq> [] \<and> (\<forall>c\<in>set fs. is_digit c))"
    unfolding decimal_number_def by blast
  have "sg \<in> lang (Quant 0 (Some 1) (Cls (\<lambda>c. c = 45)))"
    using w(2) unfolding lang_sign by simp
  moreover have "ds \<in> lang (Quant 1 (Some n) (Cls is_digit))"
    using w(3) unfolding lang_digits by simp
  moreover have "fr \<in> lang (Quant 0 (Some 1) (Seq (Cls (\<lambda>c. c = 46)) (Quant 1 None (Cls is_digit))))"
    using w(4) unfolding lang_fraction by simp
  ultimately show "w \<in> lang (number_rx n)"
    unfolding number_rx_def lang.simps(2) using w(1) by blast
qed

lemma lang_spaces: "lang (Quant 0 None (Cls is_space)) = {w. \<forall>c\<in>set w. is_space c}"
  by (simp add: lang_quant_cls)

lemma lang_separator: "lang (Quant 1 None (Cls (\<lambda>c. c = 44 \<or> is_space c))) = {w. separator w}"
  by (auto simp: lang_quant_cls separator_def Suc_le_eq)

lemma plain_number_rx: "0 < n \<Longrightarrow> plain (number_rx n)"
  by (simp add: number_rx_def)

lemma in_ms_Seq:
  "x \<in> set (ms inp (Seq a b) s) \<longleftrightarrow> (\<exists>y\<in>set (ms inp a s). x \<in> set (ms inp b y))"
  by (simp add: set_try_each)

lemma in_ms_plain:
  assumes "plain r"
  shows "y \<in> set (ms inp r s) \<longleftrightarrow> (\<exists>w\<in>lang r. fst s = w @ fst y \<and> snd y = snd s)"
proof -
  have "y \<in> ends r s \<longleftrightarrow> (\<exists>w\<in>lang r. fst s = w @ fst y \<and> snd y = snd s)"
    unfolding ends_def by (cases y) auto
  then show ?thesis using ms_plain [OF assms] by simp
qed

lemma in_ms_Grp:
  assumes "plain r"
  shows "y \<in> set (ms inp (Grp n r) s) \<longleftrightarrow>
         (\<exists>w\<in>lang r. fst s = w @ fst y \<and> snd y = (snd s)(n := Some w))"
proof
  assume "y \<in> set (ms inp (Grp n r) s)"
  then obtain x where x: "x \<in> set (ms inp r s)"
      "y = (fst x, (snd x)(n := Some (take (length (fst s) - length (fst x)) (fst s))))"
    by auto
  from x(1) obtain w where w: "w \<in> lang r" "fst s = w @ fst x" "snd x = snd s"
    using in_ms_plain [OF assms] by blast
  have "take (length (fst s) - length (fst x)) (fst s) = w"
    using w(2) by simp
  with x(2) w show "\<exists>w\<in>lang r. fst s = w @ fst y \<and> snd y = (snd s)(n := Some w)"
    by auto
next
  assume "\<exists>w\<in>lang r. fst s = w @ fst y \<and> snd y = (snd s)(n := Some w)"
  then obtain w where w: "w \<in> lang r" "fst s = w @ fst y" "snd y = (snd s)(n := Some w)"
    by blast
  let ?x = "(fst y, snd s)"
  have x: "?x \<in> set (ms inp r s)"
    using w(1,2) in_ms_plain [OF assms, of ?x inp s] by auto
  have "take (length (fst s) - length (fst ?x)) (fst s) = w"
    using w(2) by simp
  then have eq: "y = (fst y, (snd s)(n := Some (take (length (fst s) - length (fst y)) (fst s))))"
    using w(3) by (simp add: prod_eq_iff)
  show "y \<in> set (ms inp (Grp n r) s)"
    unfolding ms.simps(5) set_map
    by (rule image_eqI [where x = ?x]) (use eq x in simp_all)
qed

lemma in_ms_latlon:
  "x \<in> set (ms t latlon_rx (t, k)) \<longleftrightarrow>
     (\<exists>w1 a sep b w2. t = w1 @ a @ sep @ b @ w2 \<and> spaces w1 \<and> decimal_number 2 a \<and>
        separator sep \<and> decimal_number 3 b \<and> spaces w2 \<and>
        x = ([], k(1 := Some a, 2 := Some b)))"
  (is "?L \<longleftrightarrow> ?R")
proof
  let ?W = "Quant 0 None (Cls is_space)"
  let ?S = "Quant 1 None (Cls (\<lambda>c. c = 44 \<or> is_space c))"
  have pn: "plain (number_rx 2)" "plain (number_rx 3)" "plain ?W" "plain ?S"
    by (simp_all add: plain_number_rx)
  assume ?L
  then obtain y0 where y0: "y0 \<in> set (ms t Bol (t, k))"
      and "x \<in> set (ms t (Seq ?W (Seq (Grp 1 (number_rx 2)) (Seq ?S (Seq (Grp 2 (number_rx 3))
             (Seq ?W Eol))))) y0)"
    unfolding latlon_rx_def in_ms_Seq [of x t Bol] by blast
  then obtain y1 y2 y3 y4 y5 where ys:
      "y1 \<in> set (ms t ?W y0)" "y2 \<in> set (ms t (Grp 1 (number_rx 2)) y1)"
      "y3 \<in> set (ms t ?S y2)" "y4 \<in> set (ms t (Grp 2 (number_rx 3)) y3)"
      "y5 \<in> set (ms t ?W y4)" "x \<in> set (ms t Eol y5)"
    unfolding in_ms_Seq by blast
  from y0 have y0': "y0 = (t, k)" by simp
  from ys(1) obtain w1 where w1: "spaces w1" "fst y0 = w1 @ fst y1" "snd y1 = snd y0"
    unfolding in_ms_plain [OF pn(3)] lang_spaces spaces_def by blast
  from ys(2) obtain a where a: "decimal_number 2 a" "fst y1 = a @ fst y2"
      "snd y2 = (snd y1)(1 := Some a)"
    unfolding in_ms_Grp [OF pn(1)] lang_number_rx by blast
  from ys(3) obtain sep where sep: "separator sep" "fst y2 = sep @ fst y3" "snd y3 = snd y2"
    unfolding in_ms_plain [OF pn(4)] lang_separator by blast
  from ys(4) obtain b where b: "decimal_number 3 b" "fst y3 = b @ fst y4"
      "snd y4 = (snd y3)(2 := Some b)"
    unfolding in_ms_Grp [OF pn(2)] lang_number_rx by blast
  from ys(5) obtain w2 where w2: "spaces w2" "fst y4 = w2 @ fst y5" "snd y5 = snd y4"
    unfolding in_ms_plain [OF pn(3)] lang_spaces spaces_def by blast
  from ys(6) have e: "fst y5 = []" "x = y5" by (auto split: if_splits)
  have "t = w1 @ a @ sep @ b @ w2"
    using y0' w1(2) a(2) sep(2) b(2) w2(2) e(1) by simp
  moreover have "x = ([], k(1 := Some a, 2 := Some b))"
    using y0' w1(3) a(3) sep(3) b(3) w2(3) e by (simp add: prod_eq_iff)
  ultimately show ?R
    using w1(1) a(1) sep(1) b(1) w2(1) by blast
next
  let ?W = "Quant 0 None (Cls is_space)"
  let ?S = "Quant 1 None (Cls (\<lambda>c. c = 44 \<or> is_space c))"
  have pn: "plain (number_rx 2)" "plain (number_rx 3)" "plain ?W" "plain ?S"
    by (simp_all add: plain_number_rx)
  assume ?R
  then obtain w1 a sep b w2 where d: "t = w1 @ a @ sep @ b @ w2" "spaces w1"
      "decimal_number 2 a" "separator sep" "decimal_number 3 b" "spaces w2"
      "x = ([], k(1 := Some a, 2 := Some b))"
    by blast
  let ?y1 = "(a @ sep @ b @ w2, k)"
  let ?y2 = "(sep @ b @ w2, k(1 := Some a))"
  let ?y3 = "(b @ w2, k(1 := Some a))"
  let ?y4 = "(w2, k(1 := Some a, 2 := Some b))"
  have "(t, k) \<in> set (ms t Bol (t, k))" by simp
  moreover have "?y1 \<in> set (ms t ?W (t, k))"
    unfolding in_ms_plain [OF pn(3)] lang_spaces using d(1,2) by (auto simp: spaces_def)
  moreover have "?y2 \<in> set (ms t (Grp 1 (number_rx 2)) ?y1)"
    unfolding in_ms_Grp [OF pn(1)] lang_number_rx using d(3) by auto
  moreover have "?y3 \<in> set (ms t ?S ?y2)"
    unfolding in_ms_plain [OF pn(4)] lang_separator using d(4) by auto
  moreover have "?y4 \<in> set (ms t (Grp 2 (number_rx 3)) ?y3)"
    unfolding in_ms_Grp [OF pn(2)] lang_number_rx using d(5) by auto
  moreover have "x \<in> set (ms t ?W ?y4)"
    unfolding in_ms_plain [OF pn(3)] lang_spaces using d(6,7) by (auto simp: spaces_def)
  moreover have "x \<in> set (ms t Eol x)" using d(7) by simp
  ultimately show ?L
    unfolding latlon_rx_def in_ms_Seq by blast
qed

lemma num_le_iff_not_gt: "a \<noteq> NaN \<Longrightarrow> b \<noteq> NaN \<Longrightarrow> num_le a b \<longleftrightarrow> \<not> num_gt a b"
  by (cases a; cases b) auto

lemma num_le_abs_Fin: "num_le (num_abs v) (Fin c) \<longleftrightarrow> (\<exists>x. v = Fin x \<and> \<bar>x\<bar> \<le> c)"
  by (cases v) auto

lemma exec_at_Bol_later:
  "length rest < length inp \<Longrightarrow> exec_at (Seq Bol r) inp rest = None"
  by (induction rest) auto

lemma str_match_Bol:
  "str_match t (Seq Bol r) =
     (case ms t (Seq Bol r) (t, \<lambda>_. None) of [] \<Rightarrow> None | s # _ \<Rightarrow> Some (snd s))"
  unfolding str_match_def
  by (cases t) (simp_all add: exec_at_Bol_later split: list.splits)

lemma str_match_latlon:
  "str_match t latlon_rx =
     (case ms t latlon_rx (t, \<lambda>_. None) of [] \<Rightarrow> None | s # _ \<Rightarrow> Some (snd s))"
  unfolding latlon_rx_def by (rule str_match_Bol)

lemma last_dropWhile: "dropWhile P xs \<noteq> [] \<Longrightarrow> last (dropWhile P xs) = last xs"
  by (induction xs) (auto split: if_splits)

lemma trim_last: "trim q \<noteq> [] \<Longrightarrow> \<not> is_space (last (trim q))"
  unfolding trim_def by (simp add: last_rev hd_dropWhile)

lemma trim_hd: "trim q \<noteq> [] \<Longrightarrow> \<not> is_space (hd (trim q))"
proof -
  assume ne: "trim q \<noteq> []"
  let ?ys = "dropWhile is_space q"
  have d: "dropWhile is_space (rev ?ys) \<noteq> []" using ne by (simp add: trim_def)
  have ys: "?ys \<noteq> []"
  proof
    assume "?ys = []"
    then have "dropWhile is_space (rev ?ys) = []" by (simp only: rev.simps dropWhile.simps)
    with d show False by contradiction
  qed
  have "hd (trim q) = last (dropWhile is_space (rev ?ys))"
    using d by (simp add: trim_def hd_rev)
  also have "\<dots> = last (rev ?ys)" using d by (rule last_dropWhile)
  also have "\<dots> = hd ?ys" using ys by (simp add: last_rev)
  finally show ?thesis using ys by (simp add: hd_dropWhile)
qed

lemma trim_no_margin:
  assumes "trim q = w1 @ m @ w2" "spaces w1" "spaces w2"
  shows "w1 = [] \<and> w2 = []"
proof (rule ccontr)
  assume n: "\<not> (w1 = [] \<and> w2 = [])"
  then have ne: "trim q \<noteq> []" using assms(1) by auto
  show False
  proof (cases "w1 = []")
    case False
    then have "hd (trim q) = hd w1" using assms(1) by simp
    moreover have "is_space (hd w1)" using False assms(2) by (simp add: spaces_def)
    ultimately show False using trim_hd [OF ne] by simp
  next
    case True
    with n have w2: "w2 \<noteq> []" by simp
    then have "last (trim q) = last w2" using assms(1) by simp
    moreover have "is_space (last w2)" using w2 assms(3) by (simp add: spaces_def)
    ultimately show False using trim_last [OF ne] by simp
  qed
qed

lemma digit_not_sep: "is_digit c \<Longrightarrow> \<not> sep_char c"
  by (auto simp: is_digit_def sep_char_def is_space_def)

lemma decimal_number_chars:
  assumes "decimal_number n w"
  shows "w \<noteq> []" and "\<forall>c\<in>set w. \<not> sep_char c"
proof -
  from assms obtain sg ds fr where w: "w = sg @ ds @ fr" "sg = [] \<or> sg = [45]"
      "1 \<le> length ds" "\<forall>c\<in>set ds. is_digit c"
      "fr = [] \<or> (\<exists>fs. fr = 46 # fs \<and> fs \<noteq> [] \<and> (\<forall>c\<in>set fs. is_digit c))"
    unfolding decimal_number_def by blast
  from w(3) have "ds \<noteq> []" by auto
  then show "w \<noteq> []" using w(1) by simp
  have "\<not> sep_char 45" "\<not> sep_char 46" by (simp_all add: sep_char_def is_space_def)
  then show "\<forall>c\<in>set w. \<not> sep_char c"
    using w(1,2,4,5) digit_not_sep by auto
qed

lemma split_unique:
  assumes "a @ sep @ b = a' @ sep' @ b'"
    and "decimal_number n a" "separator sep" "decimal_number m b"
    and "decimal_number n a'" "separator sep'" "decimal_number m b'"
  shows "a = a' \<and> b = b'"
proof -
  have head: "takeWhile (\<lambda>c. \<not> sep_char c) (x @ s @ y) = x"
    if "decimal_number n x" "separator s" for x s y
  proof -
    from that(2) obtain c cs where s: "s = c # cs" "sep_char c"
      unfolding separator_def sep_char_def by (cases s) auto
    show ?thesis
      using decimal_number_chars(2) [OF that(1)] s by simp
  qed
  have mid: "takeWhile sep_char (s @ y) = s"
    if "separator s" "decimal_number m y" for s y
  proof -
    from decimal_number_chars [OF that(2)] obtain c cs where y: "y = c # cs" "\<not> sep_char c"
      by (cases y) auto
    have "\<forall>c\<in>set s. sep_char c" using that(1) by (simp add: separator_def sep_char_def)
    then show ?thesis using y by simp
  qed
  have "a = a'"
    using head [OF assms(2,3), of b] head [OF assms(5,6), of b'] assms(1) by simp
  with assms(1) have r: "sep @ b = sep' @ b'" by simp
  have "sep = sep'"
    using mid [OF assms(3,4)] mid [OF assms(6,7)] r by simp
  with r \<open>a = a'\<close> show ?thesis by simp
qed

lemma match_sound:
  assumes "str_match (trim q) latlon_rx = Some m"
  shows "\<exists>a sep b. trim q = a @ sep @ b \<and> decimal_number 2 a \<and> separator sep \<and>
           decimal_number 3 b \<and> m 1 = Some a \<and> m 2 = Some b"
proof -
  let ?t = "trim q"
  have "str_match ?t latlon_rx =
      (case ms ?t latlon_rx (?t, \<lambda>_. None) of [] \<Rightarrow> None | s # _ \<Rightarrow> Some (snd s))"
    by (rule str_match_latlon)
  with assms obtain s ss where s: "ms ?t latlon_rx (?t, \<lambda>_. None) = s # ss" "m = snd s"
    by (auto split: list.splits)
  then have "s \<in> set (ms ?t latlon_rx (?t, \<lambda>_. None))" by simp
  then obtain w1 a sep b w2 where d: "?t = w1 @ a @ sep @ b @ w2" "spaces w1"
      "decimal_number 2 a" "separator sep" "decimal_number 3 b" "spaces w2"
      "s = ([], (\<lambda>_. None)(1 := Some a, 2 := Some b))"
    unfolding in_ms_latlon by blast
  have "?t = w1 @ (a @ sep @ b) @ w2" using d(1) by simp
  from trim_no_margin [OF this d(2,6)] have "w1 = []" "w2 = []" by simp_all
  with d s(2) show ?thesis by auto
qed

lemma match_complete:
  assumes "trim q = a @ sep @ b" "decimal_number 2 a" "separator sep" "decimal_number 3 b"
  shows "\<exists>m. str_match (trim q) latlon_rx = Some m \<and> m 1 = Some a \<and> m 2 = Some b"
proof -
  let ?t = "trim q"
  let ?x = "([], (\<lambda>_. None)(1 := Some a, 2 := Some b)) :: mstate"
  have "?t = [] @ a @ sep @ b @ []" using assms(1) by simp
  moreover have "spaces []" by (simp add: spaces_def)
  ultimately have "?x \<in> set (ms ?t latlon_rx (?t, \<lambda>_. None))"
    unfolding in_ms_latlon using assms(2-4) by blast
  then obtain s ss where s: "ms ?t latlon_rx (?t, \<lambda>_. None) = s # ss"
    by (cases "ms ?t latlon_rx (?t, \<lambda>_. None)") auto
  have "str_match ?t latlon_rx =
      (case ms ?t latlon_rx (?t, \<lambda>_. None) of [] \<Rightarrow> None | s # _ \<Rightarrow> Some (snd s))"
    by (rule str_match_latlon)
  with s have m: "str_match ?t latlon_rx = Some (snd s)" by simp
  from match_sound [OF m] obtain a' sep' b' where d: "?t = a' @ sep' @ b'"
      "decimal_number 2 a'" "separator sep'" "decimal_number 3 b'"
      "snd s 1 = Some a'" "snd s 2 = Some b'"
    by blast
  have "a @ sep @ b = a' @ sep' @ b'" using assms(1) d(1) by simp
  from split_unique [OF this assms(2-4) d(2-4)] have "a = a'" "b = b'" by simp_all
  with m d(5,6) show ?thesis by simp
qed

lemma to_double_not_NaN: "to_double neg p q \<noteq> NaN"
  by (simp add: to_double_def Let_def)

lemma parseFloat_decimal_number:
  assumes "decimal_number n w"
  shows "parseFloat w \<noteq> NaN"
proof -
  from assms obtain sg ds fr where w: "w = sg @ ds @ fr" "sg = [] \<or> sg = [45]"
      "1 \<le> length ds" "\<forall>c\<in>set ds. is_digit c"
    unfolding decimal_number_def by blast
  from w(3) obtain d ds' where ds: "ds = d # ds'" by (cases ds) auto
  with w(4) have d: "is_digit d" by simp
  then have dn: "\<not> is_space d" "d \<noteq> 45" "d \<noteq> 43"
    by (auto simp: is_digit_def is_space_def)
  have sp: "\<not> is_space 45" by (simp add: is_space_def)
  from w(2) show ?thesis
  proof
    assume "sg = []"
    then have "w = d # ds' @ fr" using w(1) ds by simp
    then show ?thesis
      using d dn by (simp add: parseFloat_def Let_def to_double_not_NaN)
  next
    assume "sg = [45]"
    then have "w = 45 # d # ds' @ fr" using w(1) ds by simp
    then show ?thesis
      using d dn sp by (simp add: parseFloat_def Let_def to_double_not_NaN)
  qed
qed

lemma parseLatLon_Some_iff:
  "parseLatLon q = Some (lat, lon) \<longleftrightarrow>
     (\<exists>a sep b. trim q = a @ sep @ b \<and> decimal_number 2 a \<and> separator sep \<and>
        decimal_number 3 b \<and> lat = parseFloat a \<and> lon = parseFloat b \<and>
        num_le (num_abs lat) (Fin 90) \<and> num_le (num_abs lon) (Fin 180))"
  (is "?L \<longleftrightarrow> ?R")
proof
  assume ?L
  then obtain m where m: "str_match (trim q) latlon_rx = Some m"
      and v: "lat = parseFloat_capture (m 1)" "lon = parseFloat_capture (m 2)"
        "\<not> num_gt (num_abs lat) (Fin 90)" "\<not> num_gt (num_abs lon) (Fin 180)"
    by (auto simp: parseLatLon_def Let_def split: option.splits if_splits)
  from match_sound [OF m] obtain a sep b where d: "trim q = a @ sep @ b"
      "decimal_number 2 a" "separator sep" "decimal_number 3 b" "m 1 = Some a" "m 2 = Some b"
    by blast
  have p: "lat = parseFloat a" "lon = parseFloat b"
    using v(1,2) d(5,6) by (simp_all add: parseFloat_capture_def)
  have "lat \<noteq> NaN" "lon \<noteq> NaN"
    using p parseFloat_decimal_number d(2,4) by auto
  then have "num_abs lat \<noteq> NaN" "num_abs lon \<noteq> NaN"
    by (cases lat, simp_all, cases lon, simp_all)
  then have "num_le (num_abs lat) (Fin 90)" "num_le (num_abs lon) (Fin 180)"
    using v(3,4) by (simp_all add: num_le_iff_not_gt)
  with d p show ?R by blast
next
  assume ?R
  then obtain a sep b where d: "trim q = a @ sep @ b" "decimal_number 2 a" "separator sep"
      "decimal_number 3 b" "lat = parseFloat a" "lon = parseFloat b"
      "num_le (num_abs lat) (Fin 90)" "num_le (num_abs lon) (Fin 180)"
    by blast
  from match_complete [OF d(1-4)] obtain m where m: "str_match (trim q) latlon_rx = Some m"
      "m 1 = Some a" "m 2 = Some b"
    by blast
  have "\<not> num_gt (num_abs lat) (Fin 90)"
    using d(7) by (cases lat) simp_all
  moreover have "\<not> num_gt (num_abs lon) (Fin 180)"
    using d(8) by (cases lon) simp_all
  ultimately
  show ?L
    using m d(5,6) by (simp add: parseLatLon_def parseFloat_capture_def)
qed

section \<open>The classifier of the submit path\<close>

text \<open>
  Claim C1. For every input string, \<^verbatim>\<open>parseLatLon\<close> returns a coordinate pair exactly
  when the trimmed string matches the pattern (optional sign, one or two integer digits,
  optional fraction; a separator of commas and white space; optional sign, one to three
  integer digits, optional fraction) and the parsed values satisfy \<open>|lat| \<le> 90\<close> and
  \<open>|lon| \<le> 180\<close>; the pair holds the parsed values. For every other string it returns
  null. \<^verbatim>\<open>handleSubmit\<close> asks for the forecast at the pair in the first case and sends the
  trimmed text to the geocoding search in the second.
\<close>

theorem parseLatLon_classifies:
  "(parseLatLon q = Some (lat, lon) \<longleftrightarrow> coordinate_text (trim q) lat lon) \<and>
   (parseLatLon q = None \<longleftrightarrow> (\<forall>la lo. \<not> coordinate_text (trim q) la lo)) \<and>
   (coordinate_text (trim (query s)) lat lon \<longrightarrow>
      snd (handleSubmit_start s) = (Forecast lat lon, ForecastFetch lat lon None False)) \<and>
   ((\<forall>la lo. \<not> coordinate_text (trim (query s)) la lo) \<longrightarrow>
      snd (handleSubmit_start s) = (GeocodeSearch (trim (query s)) 1, SubmitGeocode))"
proof -
  have some: "parseLatLon p = Some (la, lo) \<longleftrightarrow> coordinate_text (trim p) la lo" for p la lo
  proof
    assume "parseLatLon p = Some (la, lo)"
    then obtain a sep b where d: "trim p = a @ sep @ b" "decimal_number 2 a" "separator sep"
        "decimal_number 3 b" "la = parseFloat a" "lo = parseFloat b"
        "num_le (num_abs la) (Fin 90)" "num_le (num_abs lo) (Fin 180)"
      unfolding parseLatLon_Some_iff by blast
    from d(7,8) obtain x y where v: "la = Fin x" "\<bar>x\<bar> \<le> 90" "lo = Fin y" "\<bar>y\<bar> \<le> 180"
      unfolding num_le_abs_Fin by blast
    have "parseFloat a = Fin x" "parseFloat b = Fin y"
      using d(5,6) v(1,3) by simp_all
    with d(1-4) v show "coordinate_text (trim p) la lo"
      unfolding coordinate_text_def by blast
  next
    assume "coordinate_text (trim p) la lo"
    then obtain a sep b x y where d: "trim p = a @ sep @ b" "decimal_number 2 a"
        "separator sep" "decimal_number 3 b" "parseFloat a = Fin x" "parseFloat b = Fin y"
        "\<bar>x\<bar> \<le> 90" "\<bar>y\<bar> \<le> 180" "la = Fin x" "lo = Fin y"
      unfolding coordinate_text_def by blast
    have "num_le (num_abs la) (Fin 90)" "num_le (num_abs lo) (Fin 180)"
      using d(7-10) by simp_all
    moreover have "la = parseFloat a" "lo = parseFloat b"
      using d(5,6,9,10) by simp_all
    ultimately show "parseLatLon p = Some (la, lo)"
      unfolding parseLatLon_Some_iff using d(1-4) by blast
  qed
  have none: "parseLatLon p = None \<longleftrightarrow> (\<forall>la lo. \<not> coordinate_text (trim p) la lo)" for p
  proof
    assume "parseLatLon p = None"
    then show "\<forall>la lo. \<not> coordinate_text (trim p) la lo"
      using some [of p] by simp
  next
    assume "\<forall>la lo. \<not> coordinate_text (trim p) la lo"
    then have "parseLatLon p \<noteq> Some (la, lo)" for la lo
      using some [of p la lo] by simp
    then show "parseLatLon p = None"
      by (cases "parseLatLon p") auto
  qed
  have "snd (handleSubmit_start s) = (Forecast lat lon, ForecastFetch lat lon None False)"
    if "coordinate_text (trim (query s)) lat lon"
  proof -
    from that have "parseLatLon (query s) = Some (lat, lon)" by (simp add: some)
    then show ?thesis
      by (simp add: handleSubmit_start_def resolveAndFetch_start_def)
  qed
  moreover have "snd (handleSubmit_start s) = (GeocodeSearch (trim (query s)) 1, SubmitGeocode)"
    if "\<forall>la lo. \<not> coordinate_text (trim (query s)) la lo"
  proof -
    from that have "parseLatLon (query s) = None" by (simp add: none)
    then show ?thesis
      by (simp add: handleSubmit_start_def)
  qed
  ultimately show ?thesis
    using some [of q lat lon] none [of q] by blast
qed

theorem parseLatLon_classifies_witness:
  "coordinate_text (trim (js ''12.5, -7'')) (Fin (25 / 2)) (Fin (- 7)) \<and>
   snd (handleSubmit_start (initial_page\<lparr>query := js ''12.5, -7''\<rparr>)) =
     (Forecast (Fin (25 / 2)) (Fin (- 7)), ForecastFetch (Fin (25 / 2)) (Fin (- 7)) None False) \<and>
   (\<forall>la lo. \<not> coordinate_text (trim (js ''91, 0'')) la lo)"
proof -
  have a: "parseLatLon (js ''12.5, -7'') = Some (Fin (25 / 2), Fin (- 7))"
    by (simp add: classify_eval)
  have b: "parseLatLon (js ''91, 0'') = None"
    by (simp add: classify_eval)
  have q: "query (initial_page\<lparr>query := js ''12.5, -7''\<rparr>) = js ''12.5, -7''"
    by simp
  from parseLatLon_classifies [of "js ''12.5, -7''" "Fin (25 / 2)" "Fin (- 7)"
      "initial_page\<lparr>query := js ''12.5, -7''\<rparr>"] a
  have "coordinate_text (trim (js ''12.5, -7'')) (Fin (25 / 2)) (Fin (- 7))"
    and "snd (handleSubmit_start (initial_page\<lparr>query := js ''12.5, -7''\<rparr>)) =
     (Forecast (Fin (25 / 2)) (Fin (- 7)), ForecastFetch (Fin (25 / 2)) (Fin (- 7)) None False)"
    unfolding q by blast+
  moreover from parseLatLon_classifies [of "js ''91, 0''"] b
  have "\<forall>la lo. \<not> coordinate_text (trim (js ''91, 0'')) la lo"
    by blast
  ultimately show ?thesis by blast
qed

section \<open>The two classifiers\<close>

text \<open>
  Claim C2. The claim is that \<^verbatim>\<open>isLatLonInput\<close> (autosuggest path) and
  \<^verbatim>\<open>parseLatLon\<close> (submit path) classify every string alike, both checking the pattern
  and the bounds \<open>|lat| \<le> 90\<close>, \<open>|lon| \<le> 180\<close>. \<^verbatim>\<open>isLatLonInput\<close> checks the
  pattern only: on the input \<^verbatim>\<open>91, 0\<close> it answers true, so that autosuggest is
  suppressed, while \<^verbatim>\<open>parseLatLon\<close> returns null and the submit path geocodes the text.
\<close>

theorem isLatLonInput_ignores_bounds:
  "isLatLonInput (js ''91, 0'') \<and> parseLatLon (js ''91, 0'') = None"
  by (simp add: classify_eval)

text \<open>The other direction holds: what the submit path takes for coordinates suppresses autosuggest.\<close>

lemma parseLatLon_imp_isLatLonInput: "parseLatLon q \<noteq> None \<Longrightarrow> isLatLonInput q"
  by (auto simp: parseLatLon_def isLatLonInput_def split: option.splits)

section \<open>Two submissions in flight\<close>







section \<open>Failures of the geocoding step\<close>

text \<open>
  Claim C4. The claim is that a geocoding response with a non-success status is reported
  as a network error and never as not-found. \<^verbatim>\<open>handleSubmit\<close> does not read
  \<^verbatim>\<open>res.ok\<close>: a response with a failure status whose body has no \<^verbatim>\<open>results\<close> ends with
  the not-found message, whatever the state. (\<^verbatim>\<open>resolveAndFetch\<close> does test \<^verbatim>\<open>res.ok\<close>.)
\<close>

theorem geocode_status_not_checked:
  "fst (handleSubmit_resume (Response False (Json (Some \<lparr>results = None\<rparr>))) s) =
     s\<lparr>error := Some (js ''No matching locations found''), loading := False\<rparr>"
  by (simp add: page_eval)

text \<open>
  The parts of the claim that hold: an empty result set gives the not-found message, and
  a transport failure gives the message of the rejection.
\<close>

lemma geocode_error_messages:
  "(first_result data = None \<longrightarrow>
      error (fst (handleSubmit_resume (Response ok (Json data)) s)) =
        Some (js ''No matching locations found'')) \<and>
   error (fst (handleSubmit_resume (Rejected (Some m)) s)) = Some m \<and>
   error (resolveAndFetch_resume lat lon cp (Response False b) s) =
     Some (js ''Failed to fetch weather'')"
  by (simp add: page_eval)




section \<open>Failures of autosuggest\<close>




section \<open>Shaping the daily forecast\<close>

lemma fiveDay_nth:
  assumes "daily r = Some d" "i < length (fiveDay (Some r))"
  shows "fiveDay (Some r) ! i =
           \<lparr>date = time d ! i,
            code = at_index (weather_code d) i,
            tmax = at_index (temperature_2m_max d) i,
            tmin = at_index (temperature_2m_min d) i,
            ppop = at_index (precipitation_probability_max d) i,
            wmax = at_index (wind_speed_10m_max d) i\<rparr>"
  using assms by (simp add: fiveDay_def nth_enumerate_eq)

lemma field_from_at_index: "field_from (at_index arr i) arr i"
  by (simp add: field_from_def at_index_def split: option.splits)

text \<open>
  Claim C7. For every daily payload, \<^verbatim>\<open>fiveDay\<close> has one entry for each index of the
  \<^verbatim>\<open>time\<close> array up to the fifth, in the order of that array and without sorting; the
  entry at \<open>i\<close> has the date \<open>time[i]\<close> and every other field from its array at \<open>i\<close> when
  that array exists and has an element there, and unknown otherwise. On seven days it has
  exactly five entries.
\<close>

theorem fiveDay_shape:
  assumes "daily r = Some d"
  shows "length (fiveDay (Some r)) = min 5 (length (time d)) \<and>
         (\<forall>i < length (fiveDay (Some r)).
            date (fiveDay (Some r) ! i) = time d ! i \<and>
            field_from (code (fiveDay (Some r) ! i)) (weather_code d) i \<and>
            field_from (tmax (fiveDay (Some r) ! i)) (temperature_2m_max d) i \<and>
            field_from (tmin (fiveDay (Some r) ! i)) (temperature_2m_min d) i \<and>
            field_from (ppop (fiveDay (Some r) ! i)) (precipitation_probability_max d) i \<and>
            field_from (wmax (fiveDay (Some r) ! i)) (wind_speed_10m_max d) i) \<and>
         map date (fiveDay (Some r)) = take 5 (time d) \<and>
         (length (time d) = 7 \<longrightarrow> length (fiveDay (Some r)) = 5)"
proof -
  have len: "length (fiveDay (Some r)) = min 5 (length (time d))"
    using assms by (simp add: fiveDay_def)
  have dates: "map date (fiveDay (Some r)) = take 5 (time d)"
    using assms by (simp add: fiveDay_def take_map [symmetric] comp_def case_prod_unfold
        map_snd_enumerate del: take_map)
  show ?thesis
    using len dates fiveDay_nth [OF assms] by (simp add: field_from_at_index)
qed

theorem fiveDay_shape_witness:
  "daily (sample_weather 1 2) = Some sample_daily \<and> length (time sample_daily) = 7 \<and>
   length (fiveDay (Some (sample_weather 1 2))) = 5 \<and>
   map date (fiveDay (Some (sample_weather 1 2))) =
     map js [''2024-05-01'', ''2024-05-02'', ''2024-05-03'', ''2024-05-04'', ''2024-05-05''] \<and>
   tmin (fiveDay (Some (sample_weather 1 2)) ! 4) = Some (Fin 14) \<and>
   ppop (fiveDay (Some (sample_weather 1 2)) ! 4) = None"
proof -
  have h: "daily (sample_weather 1 2) = Some sample_daily"
    by (simp add: sample_weather_def)
  have t: "time sample_daily = map js [''2024-05-01'', ''2024-05-02'', ''2024-05-03'',
      ''2024-05-04'', ''2024-05-05'', ''2024-05-06'', ''2024-05-07'']"
    by (simp add: sample_daily_def)
  have l: "length (time sample_daily) = 7" by (simp add: t)
  from fiveDay_shape [OF h] l
  have a: "length (fiveDay (Some (sample_weather 1 2))) = 5"
    and b: "map date (fiveDay (Some (sample_weather 1 2))) = take 5 (time sample_daily)"
    and c: "field_from (tmin (fiveDay (Some (sample_weather 1 2)) ! 4)) (temperature_2m_min sample_daily) 4"
    and d: "field_from (ppop (fiveDay (Some (sample_weather 1 2)) ! 4)) (precipitation_probability_max sample_daily) 4"
    by simp_all
  have "temperature_2m_min sample_daily = Some (map Fin [10, 11, 12, 13, 14, 15])"
    "precipitation_probability_max sample_daily = Some []"
    by (simp_all add: sample_daily_def)
  with c d have "tmin (fiveDay (Some (sample_weather 1 2)) ! 4) = Some (Fin 14)"
    "ppop (fiveDay (Some (sample_weather 1 2)) ! 4) = None"
    by (simp_all add: field_from_def)
  with h l a b t show ?thesis by simp
qed

text \<open>
  Claim C8. For every daily payload without the series \<^verbatim>\<open>wind_speed_10m_max\<close>,
  \<^verbatim>\<open>fiveDay\<close> produces its entries as usual (it is a total function: no branch raises),
  and the field \<^verbatim>\<open>wmax\<close> of every entry is unknown.
\<close>

theorem fiveDay_without_wind_series:
  assumes "daily r = Some d" "wind_speed_10m_max d = None"
  shows "length (fiveDay (Some r)) = min 5 (length (time d)) \<and>
         (\<forall>e\<in>set (fiveDay (Some r)). wmax e = None)"
proof -
  have "wmax e = None" if "e \<in> set (fiveDay (Some r))" for e
  proof -
    from that obtain i where i: "i < length (fiveDay (Some r))" "e = fiveDay (Some r) ! i"
      by (auto simp: in_set_conv_nth)
    show ?thesis
      using fiveDay_nth [OF assms(1) i(1)] i(2) assms(2) by (simp add: at_index_def)
  qed
  moreover have "length (fiveDay (Some r)) = min 5 (length (time d))"
    using assms(1) by (simp add: fiveDay_def)
  ultimately show ?thesis by simp
qed

theorem fiveDay_without_wind_series_witness:
  "daily (sample_weather 1 2) = Some sample_daily \<and> wind_speed_10m_max sample_daily = None \<and>
   length (fiveDay (Some (sample_weather 1 2))) = 5 \<and>
   map wmax (fiveDay (Some (sample_weather 1 2))) = [None, None, None, None, None]"
proof -
  have h: "daily (sample_weather 1 2) = Some sample_daily" "wind_speed_10m_max sample_daily = None"
    by (simp_all add: sample_weather_def sample_daily_def)
  have l: "length (time sample_daily) = 7" by (simp add: sample_daily_def)
  let ?xs = "fiveDay (Some (sample_weather 1 2))"
  from fiveDay_without_wind_series [OF h] l
  have n: "length ?xs = 5" and w: "\<forall>e\<in>set ?xs. wmax e = None"
    by simp_all
  from w have "map wmax ?xs = replicate (length ?xs) None"
    by (simp add: map_replicate_const [symmetric])
  with n have "map wmax ?xs = [None, None, None, None, None]"
    by (simp add: numeral_eq_Suc)
  with h n show ?thesis by simp
qed

section \<open>Submitting an empty query\<close>

text \<open>
  Claim C9. The claim is that a submission of an empty or blank query sends no request.
  \<^verbatim>\<open>handleSubmit\<close> has no such test (\<^verbatim>\<open>fetchSuggestions\<close> has one for the empty
  string): with the empty query it sends the geocoding search for the empty name.
\<close>

theorem empty_query_is_sent:
  "step Submit \<lparr>ui = s\<lparr>query := []\<rparr>, pending = [], sent = []\<rparr> =
     Some \<lparr>ui = s\<lparr>query := [], error := None, loading := True\<rparr>,
           pending = [SubmitGeocode], sent = [GeocodeSearch [] 1]\<rparr>"
  by (simp add: page_eval classify_eval)

lemma blank_query_is_sent:
  "map_option sent (step Submit \<lparr>ui = s\<lparr>query := js ''   ''\<rparr>, pending = [], sent = []\<rparr>) =
     Some [GeocodeSearch [] 1]"
  by (simp add: page_eval classify_eval)

section \<open>Failures of the forecast step\<close>

text \<open>
  Claim C10, as stated: every call of \<^verbatim>\<open>resolveAndFetch\<close> that ends in its error
  branch leaves the weather view null. With two calls in flight this fails: the
  coordinates \<^verbatim>\<open>10, 10\<close> and then \<^verbatim>\<open>20, 20\<close> are submitted, the forecast of the
  second arrives and is committed, and then the first one fails (a response that is not
  \<^verbatim>\<open>ok\<close>). The first call has ended in its error branch, and the page shows its error
  together with the view of the second.
\<close>

theorem failed_reply_after_commit_keeps_view:
  "run [SetQuery (js ''10, 10''), Submit, SetQuery (js ''20, 20''), Submit,
        ForecastReply 1 (Response True (Json (sample_weather 20 20))),
        ForecastReply 0 (Response False (Unreadable None))]
     initial_system =
     Some \<lparr>ui = \<lparr>query = js ''20, 20'', units = metric, loading = False,
                 error = Some (js ''Failed to fetch weather''),
                 place = Some (coord_place (Fin 20) (Fin 20)),
                 weather = Some (sample_weather 20 20), suggestions = []\<rparr>,
           pending = [],
           sent = [Forecast (Fin 10) (Fin 10), Forecast (Fin 20) (Fin 20)]\<rparr>"
  by (simp add: initial_system_def initial_page_def page_eval classify_eval sample_weather_def)

text \<open>
  The error branch never writes the view, and no event but a successful forecast reply
  turns a null view into a view.
\<close>

lemma failed_reply_frame:
  "forecast_failed r \<Longrightarrow> weather (resolveAndFetch_resume lat lon cp r t) = weather t"
  by (cases r rule: forecast_failed.cases) (simp_all add: resolveAndFetch_resume_def)

lemma failed_reply_sets_error:
  "forecast_failed r \<Longrightarrow> error (resolveAndFetch_resume lat lon cp r t) \<noteq> None"
  by (cases r rule: forecast_failed.cases) (simp_all add: resolveAndFetch_resume_def)

lemma handleSubmit_start_no_weather:
  "weather s = None \<Longrightarrow> weather (fst (handleSubmit_start s)) = None"
  by (simp add: handleSubmit_start_def resolveAndFetch_start_def Let_def split: option.splits)

lemma handleSubmit_resume_no_weather:
  "weather s = None \<Longrightarrow> weather (fst (handleSubmit_resume r s)) = None"
  by (simp add: handleSubmit_resume_def handleSubmit_finally_def resolveAndFetch_start_def
      Let_def split: reply.splits body.splits option.splits)

lemma fetchSuggestions_weather:
  "weather (fst (fetchSuggestions_start text s)) = weather s"
  "weather (fetchSuggestions_resume r s) = weather s"
  by (simp_all add: fetchSuggestions_start_def fetchSuggestions_resume_def
      split: reply.splits body.splits)

lemma step_keeps_no_weather:
  assumes "step e y = Some y'" "\<not> commits_view e" "weather (ui y) = None"
  shows "weather (ui y') = None"
proof (cases e)
  case (SetQuery t)
  with assms show ?thesis by auto
next
  case Submit
  obtain s rq k where h: "handleSubmit_start (ui y) = (s, rq, k)"
    by (cases "handleSubmit_start (ui y)") auto
  have "weather s = None"
    using handleSubmit_start_no_weather [OF assms(3)] h by simp
  with assms(1) Submit h show ?thesis by auto
next
  case SuggestTimer
  obtain s n where h: "fetchSuggestions_start (query (ui y)) (ui y) = (s, n)"
    by (cases "fetchSuggestions_start (query (ui y)) (ui y)") auto
  have "weather s = None"
    using fetchSuggestions_weather(1) [of "query (ui y)" "ui y"] h assms(3) by simp
  with assms(1) SuggestTimer h show ?thesis by (auto split: option.splits)
next
  case (GeocodeReply i r)
  obtain s n where h: "handleSubmit_resume r (ui y) = (s, n)"
    by (cases "handleSubmit_resume r (ui y)") auto
  have "weather s = None"
    using handleSubmit_resume_no_weather [OF assms(3), of r] h by simp
  with assms(1,3) GeocodeReply h show ?thesis
    by (auto simp: fetchSuggestions_weather split: if_splits cont.splits option.splits)
next
  case (ForecastReply i r)
  with assms(2) have f: "forecast_failed r" by simp
  show ?thesis
    using assms(1,3) ForecastReply failed_reply_frame [OF f]
    by (auto simp: Let_def handleSubmit_finally_def split: if_splits cont.splits)
qed

lemma run_keeps_no_weather:
  "run evs y = Some y' \<Longrightarrow> \<forall>e\<in>set evs. \<not> commits_view e \<Longrightarrow> weather (ui y) = None \<Longrightarrow>
   weather (ui y') = None"
proof (induction evs arbitrary: y)
  case Nil
  then show ?case by simp
next
  case (Cons e evs)
  from Cons.prems(1) obtain y1 where s: "step e y = Some y1" "run evs y1 = Some y'"
    by (auto split: option.splits)
  have "weather (ui y1) = None"
    using step_keeps_no_weather [OF s(1)] Cons.prems(2,3) by simp
  with Cons.IH [OF s(2)] Cons.prems(2) show ?case by simp
qed

text \<open>
  Claim C10, amended. Every call of \<^verbatim>\<open>resolveAndFetch\<close> sets the weather view to null
  before it sends the forecast request; so when the call ends in its error branch, and
  no successful forecast reply of another call has been committed between its start and
  its reply, the view is null afterwards, whatever it was before the call, and an error
  is set. The events in between are arbitrary otherwise. The error branch itself never
  writes the view.
\<close>

theorem forecast_failure_leaves_no_weather:
  assumes "run evs \<lparr>ui = fst (resolveAndFetch_start lat lon s), pending = ks, sent = rs\<rparr> = Some y"
    and "\<forall>e\<in>set evs. \<not> commits_view e"
    and "forecast_failed r"
  shows "weather (fst (resolveAndFetch_start lat lon s)) = None \<and>
         weather (resolveAndFetch_resume lat lon cp r (ui y)) = None \<and>
         error (resolveAndFetch_resume lat lon cp r (ui y)) \<noteq> None \<and>
         (\<forall>t. weather (resolveAndFetch_resume lat lon cp r t) = weather t)"
proof -
  have n: "weather (fst (resolveAndFetch_start lat lon s)) = None"
    by (simp add: resolveAndFetch_start_def)
  then have "weather (ui \<lparr>ui = fst (resolveAndFetch_start lat lon s), pending = ks, sent = rs\<rparr>) = None"
    by simp
  from run_keeps_no_weather [OF assms(1,2) this]
  have "weather (ui y) = None" .
  then show ?thesis
    using n failed_reply_frame [OF assms(3)] failed_reply_sets_error [OF assms(3)] by simp
qed

theorem forecast_failure_leaves_no_weather_witness:
  "weather (initial_page\<lparr>weather := Some (sample_weather 10 20)\<rparr>) = Some (sample_weather 10 20) \<and>
   run [SetQuery (js ''Atlantis''), Submit,
        GeocodeReply 1 (Response True (Json (Some \<lparr>results = Some []\<rparr>)))]
     \<lparr>ui = fst (resolveAndFetch_start (Fin 1) (Fin 2)
              (initial_page\<lparr>weather := Some (sample_weather 10 20)\<rparr>)),
      pending = [ForecastFetch (Fin 1) (Fin 2) None False], sent = [Forecast (Fin 1) (Fin 2)]\<rparr> =
     Some \<lparr>ui = \<lparr>query = js ''Atlantis'', units = metric, loading = False,
                 error = Some (js ''No matching locations found''), place = None,
                 weather = None, suggestions = []\<rparr>,
           pending = [ForecastFetch (Fin 1) (Fin 2) None False],
           sent = [Forecast (Fin 1) (Fin 2), GeocodeSearch (js ''Atlantis'') 1]\<rparr> \<and>
   forecast_failed (Response False (Json (sample_weather 1 2))) \<and>
   weather (resolveAndFetch_resume (Fin 1) (Fin 2) None (Response False (Json (sample_weather 1 2)))
      \<lparr>query = js ''Atlantis'', units = metric, loading = False,
       error = Some (js ''No matching locations found''), place = None,
       weather = None, suggestions = []\<rparr>) = None \<and>
   error (resolveAndFetch_resume (Fin 1) (Fin 2) None (Response False (Json (sample_weather 1 2)))
      \<lparr>query = js ''Atlantis'', units = metric, loading = False,
       error = Some (js ''No matching locations found''), place = None,
       weather = None, suggestions = []\<rparr>) = Some (js ''Failed to fetch weather'')"
proof -
  let ?evs = "[SetQuery (js ''Atlantis''), Submit,
        GeocodeReply 1 (Response True (Json (Some \<lparr>results = Some []\<rparr>)))]"
  let ?s = "initial_page\<lparr>weather := Some (sample_weather 10 20)\<rparr>"
  let ?t = "\<lparr>query = js ''Atlantis'', units = metric, loading = False,
       error = Some (js ''No matching locations found''), place = None,
       weather = None, suggestions = []\<rparr>"
  let ?y = "\<lparr>ui = ?t, pending = [ForecastFetch (Fin 1) (Fin 2) None False],
           sent = [Forecast (Fin 1) (Fin 2), GeocodeSearch (js ''Atlantis'') 1]\<rparr>"
  let ?r = "Response False (Json (sample_weather 1 2)) :: forecast_reply"
  have p: "parseLatLon (js ''Atlantis'') = None" by (simp add: classify_eval)
  have t: "trim (js ''Atlantis'') = js ''Atlantis''" by (simp add: trim_def js_def is_space_def)
  have r: "run ?evs \<lparr>ui = fst (resolveAndFetch_start (Fin 1) (Fin 2) ?s),
      pending = [ForecastFetch (Fin 1) (Fin 2) None False], sent = [Forecast (Fin 1) (Fin 2)]\<rparr> =
      Some ?y"
    using p t
    by (simp add: initial_page_def resolveAndFetch_start_def handleSubmit_start_def
        handleSubmit_resume_def handleSubmit_finally_def first_result_def remove_nth_def)
  have c: "\<forall>e\<in>set ?evs. \<not> commits_view e" by simp
  have f: "forecast_failed ?r" by simp
  have u: "ui ?y = ?t" by simp
  from forecast_failure_leaves_no_weather [OF r c f, of None]
  have "weather (resolveAndFetch_resume (Fin 1) (Fin 2) None ?r ?t) = None"
    unfolding u by simp
  moreover have "error (resolveAndFetch_resume (Fin 1) (Fin 2) None ?r ?t) =
      Some (js ''Failed to fetch weather'')"
    by (simp add: resolveAndFetch_resume_def)
  moreover have "weather ?s = Some (sample_weather 10 20)" by simp
  ultimately show ?thesis using r f by simp
qed

end
